theory Spec2Isabelle
  imports Main
begin

section \<open>Errors of package bulkfhir\<close>

text \<open>
  Go's \<^verbatim>\<open>error\<close> values. The package declares eight sentinel errors with
  \<^verbatim>\<open>errors.New\<close>; \<^verbatim>\<open>fmt.Errorf("... %d %w", n, e)\<close> wraps a sentinel together with
  a number; \<^verbatim>\<open>errors.New\<close> called inside a function gives a fresh error that is no sentinel
  (\<open>New\<close>); an error handed back by a library (net/http, encoding/json, the FHIR helpers) is
  \<open>Foreign\<close> with its message. The errors of package strconv are kept as the library has
  them: a \<^verbatim>\<open>*strconv.NumError\<close> with the name of the function, the input and one of
  the two sentinels \<^verbatim>\<open>strconv.ErrRange\<close> and \<^verbatim>\<open>strconv.ErrSyntax\<close>, which it wraps. A
  nil error is \<open>None\<close> of \<open>error option\<close>.
\<close>

datatype error =
    ErrorUnimplemented
  | ErrorUnableToParseProgress
  | ErrorUnauthorized
  | ErrorTimeout
  | ErrorUnexpectedStatusCode
  | ErrorGreaterThanOneContentLocation
  | ErrorUnexpectedNumberOfXProgress
  | ErrorRetryableHTTPStatus
  | Errorf string int error
  | New string
  | Foreign string
  | ErrRange
  | ErrSyntax
  | NumError string string error

text \<open>
  \<^verbatim>\<open>errors.Is(err, target)\<close>: \<open>err\<close> or an error it wraps is \<open>target\<close>.
\<close>

fun errors_Is :: "error \<Rightarrow> error \<Rightarrow> bool" where
  "errors_Is (Errorf f n e) target = (Errorf f n e = target \<or> errors_Is e target)"
| "errors_Is (NumError f num e) target = (NumError f num e = target \<or> errors_Is e target)"
| "errors_Is e target = (e = target)"

section \<open>ResourceType and its wire names\<close>

text \<open>
  \<^verbatim>\<open>type ResourceType int\<close> with the four constants numbered by \<^verbatim>\<open>iota\<close>. Any other
  integer is a value of the type too, and has no wire name.
\<close>

type_synonym ResourceType = int

definition Patient :: ResourceType where "Patient = 0"
definition Coverage :: ResourceType where "Coverage = 1"
definition ExplanationOfBenefit :: ResourceType where "ExplanationOfBenefit = 2"
definition OperationOutcome :: ResourceType where "OperationOutcome = 3"

text \<open>A Go function returning \<^verbatim>\<open>(T, error)\<close> returns a pair of a value and an optional error.\<close>

definition ToAPI :: "ResourceType \<Rightarrow> string \<times> error option" where
  "ToAPI r =
     (if r = Patient then (''Patient'', None)
      else if r = Coverage then (''Coverage'', None)
      else if r = ExplanationOfBenefit then (''ExplanationOfBenefit'', None)
      else if r = OperationOutcome then (''OperationOutcome'', None)
      else ('''', Some (New ''the specified resource type does not have a mapped BCDA API value'')))"

definition ResourceTypeFromAPI :: "string \<Rightarrow> ResourceType \<times> error option" where
  "ResourceTypeFromAPI r =
     (if r = ''Patient'' then (Patient, None)
      else if r = ''Coverage'' then (Coverage, None)
      else if r = ''ExplanationOfBenefit'' then (ExplanationOfBenefit, None)
      else if r = ''OperationOutcome'' then (OperationOutcome, None)
      else (- 1, Some (New ''not a valid ResourceType'')))"

section \<open>Library functions the client calls\<close>

text \<open>
  The response of \<^verbatim>\<open>httpClient.Do\<close>: the status code, the header (a name gives the list
  of its values, as \<^verbatim>\<open>Header.Values\<close> reads it) and the bytes of the body.
\<close>

record Response =
  StatusCode :: int
  Header :: "string \<Rightarrow> string list"
  Body :: string

text \<open>
  What one call of \<^verbatim>\<open>httpClient.Do\<close> gives: a transport error (with its message) or a
  response. The network is not part of the program, so each call takes its outcome as an
  argument.
\<close>

datatype RoundTrip = DoError string | DoResponse Response

abbreviation http_StatusOK :: int where "http_StatusOK \<equiv> 200"
abbreviation http_StatusAccepted :: int where "http_StatusAccepted \<equiv> 202"
abbreviation http_StatusUnauthorized :: int where "http_StatusUnauthorized \<equiv> 401"

abbreviation xProgress :: string where "xProgress \<equiv> ''X-Progress''"

record jobStatusOutput =
  ResourceType :: string
  URL :: string

record jobStatusResponse =
  Output :: "jobStatusOutput list"
  TransactionTime :: string

text \<open>An instant (\<^verbatim>\<open>time.Time\<close>) as a number; the zero value of the type is 0.\<close>

type_synonym Time = int

text \<open>
  The functions of other packages that the client calls and whose code is not part of
  \<^verbatim>\<open>client.go\<close>, taken as parameters. Each gives the error's message when it fails:
  \<^item> \<open>http_NewRequest\<close>: \<^verbatim>\<open>http.NewRequest\<close> on a URL, \<open>Some\<close> message when the request
    cannot be built;
  \<^item> \<open>Decode_jobStatusResponse\<close>, \<open>Decode_tokenResponse\<close>: \<^verbatim>\<open>json.NewDecoder(body).Decode\<close>
    into a \<^verbatim>\<open>jobStatusResponse\<close> and into a \<^verbatim>\<open>tokenResponse\<close> (whose one field is the
    token);
  \<^item> \<open>ParseFHIRInstant\<close>: \<^verbatim>\<open>fhir.ParseFHIRInstant\<close>.

  With them comes the size in bits of the type \<^verbatim>\<open>int\<close> on the target the program is
  built for (\<^verbatim>\<open>strconv.IntSize\<close>, 32 or 64).
\<close>

record Libs =
  http_NewRequest :: "string \<Rightarrow> string option"
  Decode_jobStatusResponse :: "string \<Rightarrow> string + jobStatusResponse"
  Decode_tokenResponse :: "string \<Rightarrow> string + string"
  ParseFHIRInstant :: "string \<Rightarrow> string + Time"
  IntSize :: nat

subsection \<open>The progress pattern\<close>

text \<open>
  \<^verbatim>\<open>progressREGEX = regexp.MustCompile(`\(([0-9]+?)%\)`)\<close>. A match starts at an opening
  parenthesis followed by one or more ASCII digits and then by \<^verbatim>\<open>%)\<close>. The digits cannot be
  followed by a digit in a match, so at a given start the group is the whole run of digits.
  \<open>isDigit\<close> is the class \<^verbatim>\<open>[0-9]\<close> (the bytes 48 to 57); \<open>progressREGEX_at\<close> matches at
  the head of the string and gives the group.
\<close>

definition isDigit :: "char \<Rightarrow> bool" where
  "isDigit c = (48 \<le> (of_char c :: nat) \<and> (of_char c :: nat) \<le> 57)"

definition progressREGEX_at :: "string \<Rightarrow> string option" where
  "progressREGEX_at s =
     (case s of
        [] \<Rightarrow> None
      | c # rest \<Rightarrow>
          if c = CHR ''('' \<and> takeWhile isDigit rest \<noteq> [] \<and>
             take 2 (dropWhile isDigit rest) = ''%)''
          then Some (takeWhile isDigit rest) else None)"

text \<open>
  \<^verbatim>\<open>progressREGEX.FindStringSubmatch(s)\<close>: the leftmost match as the list of the whole
  match and the group; the empty list (Go's nil) when nothing matches.
\<close>

fun progressREGEX_FindStringSubmatch :: "string \<Rightarrow> string list" where
  "progressREGEX_FindStringSubmatch [] = []"
| "progressREGEX_FindStringSubmatch (c # rest) =
     (case progressREGEX_at (c # rest) of
        Some ds \<Rightarrow> [CHR ''('' # ds @ ''%)'', ds]
      | None \<Rightarrow> progressREGEX_FindStringSubmatch rest)"

subsection \<open>strconv.Atoi\<close>

text \<open>
  \<^verbatim>\<open>strconv.Atoi\<close> for an \<^verbatim>\<open>int\<close> of the given size in bits: an optional sign and one
  or more decimal digits. Any other input gives the error
  \<^verbatim>\<open>&NumError{"Atoi", s, ErrSyntax}\<close>, and a number that does not fit gives
  \<^verbatim>\<open>&NumError{"Atoi", s, ErrRange}\<close> with the nearest bound as value.
\<close>

definition digitVal :: "char \<Rightarrow> int" where
  "digitVal c = int (of_char c) - 48"

fun decimal :: "string \<Rightarrow> int \<Rightarrow> int" where
  "decimal [] n = n"
| "decimal (c # cs) n = decimal cs (n * 10 + digitVal c)"

definition strconv_Atoi :: "nat \<Rightarrow> string \<Rightarrow> int \<times> error option" where
  "strconv_Atoi intSize s =
     (let neg = (take 1 s = ''-'');
          body = (if take 1 s = ''-'' \<or> take 1 s = ''+'' then drop 1 s else s)
      in if body = [] \<or> \<not> list_all isDigit body
         then (0, Some (NumError ''Atoi'' s ErrSyntax))
         else let v = (if neg then - decimal body 0 else decimal body 0)
              in if v > 2 ^ (intSize - 1) - 1
                 then (2 ^ (intSize - 1) - 1, Some (NumError ''Atoi'' s ErrRange))
                 else if v < - (2 ^ (intSize - 1))
                 then (- (2 ^ (intSize - 1)), Some (NumError ''Atoi'' s ErrRange))
                 else (v, None))"

section \<open>The client\<close>

record Client =
  baseURL :: string
  fullAuthURL :: string
  clientID :: string
  clientSecret :: string
  authScopes :: "string list"
  token :: string

text \<open>
  \<^verbatim>\<open>map[ResourceType][]string\<close> is a partial map; a nil map and an empty map read the
  same and are both \<open>Map.empty\<close>.
\<close>

record JobStatus =
  IsComplete :: bool
  PercentComplete :: int
  ResultURLs :: "ResourceType \<rightharpoonup> string list"
  TransactionTime :: Time

text \<open>The zero value \<^verbatim>\<open>JobStatus{}\<close>.\<close>

definition JobStatus_zero :: JobStatus where
  "JobStatus_zero =
     \<lparr>IsComplete = False, PercentComplete = 0, ResultURLs = Map.empty, TransactionTime = 0\<rparr>"

subsection \<open>Authenticate\<close>

text \<open>
  \<^verbatim>\<open>Client.Authenticate\<close>, given the outcome of its HTTP call. It returns the client (whose
  token it stores on success), the token and the error. The status code of the response is
  not looked at.
\<close>

definition Client_Authenticate :: "Libs \<Rightarrow> Client \<Rightarrow> RoundTrip \<Rightarrow> Client \<times> string \<times> error option" where
  "Client_Authenticate L c rt =
     (case http_NewRequest L (fullAuthURL c) of
        Some m \<Rightarrow> (c, [], Some (Foreign m))
      | None \<Rightarrow>
          (case rt of
             DoError m \<Rightarrow> (c, [], Some (Foreign m))
           | DoResponse resp \<Rightarrow>
               (case Decode_tokenResponse L (Body resp) of
                  Inl m \<Rightarrow> (c, [], Some (Foreign m))
                | Inr tok \<Rightarrow> (c\<lparr>token := tok\<rparr>, tok, None))))"

subsection \<open>JobStatus\<close>

text \<open>The arm of the switch for \<^verbatim>\<open>http.StatusAccepted\<close>: the job is pending.\<close>

definition JobStatus_Accepted :: "Libs \<Rightarrow> Response \<Rightarrow> JobStatus \<times> error option" where
  "JobStatus_Accepted L resp =
     (let p = Header resp xProgress in
      if length p \<noteq> 1
      then (JobStatus_zero\<lparr>IsComplete := False\<rparr>,
            Some (Errorf ''one X-Progress header value expected. Instead got: %d %w''
                    (int (length p)) ErrorUnexpectedNumberOfXProgress))
      else let match = progressREGEX_FindStringSubmatch (p ! 0) in
        if length match = 0
        then (JobStatus_zero\<lparr>IsComplete := False\<rparr>, Some ErrorUnableToParseProgress)
        else (case strconv_Atoi (IntSize L) (match ! 1) of
                (progress, Some err) \<Rightarrow> (JobStatus_zero\<lparr>IsComplete := False\<rparr>, Some err)
              | (progress, None) \<Rightarrow>
                  (JobStatus_zero\<lparr>IsComplete := False, PercentComplete := progress\<rparr>, None)))"

text \<open>
  The loop over \<^verbatim>\<open>jr.Output\<close>: each item's URL is appended to the list of its resource
  type; the first item whose type name is unknown ends the call with \<^verbatim>\<open>JobStatus{}\<close> and
  the error.
\<close>

fun collectResultURLs :: "jobStatusOutput list \<Rightarrow> JobStatus \<Rightarrow> JobStatus \<times> error option" where
  "collectResultURLs [] jobStatus = (jobStatus, None)"
| "collectResultURLs (item # items) jobStatus =
     (case ResourceTypeFromAPI (ResourceType item) of
        (r, Some err) \<Rightarrow> (JobStatus_zero, Some err)
      | (r, None) \<Rightarrow>
          collectResultURLs items
            (jobStatus\<lparr>ResultURLs := (ResultURLs jobStatus)
               (r \<mapsto> (case ResultURLs jobStatus r of None \<Rightarrow> [] | Some us \<Rightarrow> us) @ [URL item])\<rparr>))"

text \<open>The arm for \<^verbatim>\<open>http.StatusOK\<close>: the job is finished.\<close>

definition JobStatus_OK :: "Libs \<Rightarrow> Response \<Rightarrow> JobStatus \<times> error option" where
  "JobStatus_OK L resp =
     (let jobStatus = JobStatus_zero\<lparr>IsComplete := True, ResultURLs := Map.empty\<rparr> in
      case Decode_jobStatusResponse L (Body resp) of
        Inl m \<Rightarrow> (jobStatus, Some (Foreign m))
      | Inr jr \<Rightarrow>
          (case collectResultURLs (Output jr) jobStatus of
             (st, Some err) \<Rightarrow> (st, Some err)
           | (st, None) \<Rightarrow>
               (case ParseFHIRInstant L (jobStatusResponse.TransactionTime jr) of
                  Inl m \<Rightarrow> (JobStatus_zero, Some (Foreign m))
                | Inr t \<Rightarrow> (st\<lparr>TransactionTime := t\<rparr>, None))))"

text \<open>
  \<^verbatim>\<open>Client.JobStatus\<close>, given the outcome of its HTTP call. Without a token it returns
  before any request is built.
\<close>

definition Client_JobStatus :: "Libs \<Rightarrow> Client \<Rightarrow> string \<Rightarrow> RoundTrip \<Rightarrow> JobStatus \<times> error option" where
  "Client_JobStatus L c jobStatusURL rt =
     (if length (token c) = 0 then (JobStatus_zero, Some ErrorUnauthorized)
      else case http_NewRequest L jobStatusURL of
        Some m \<Rightarrow> (JobStatus_zero, Some (Foreign m))
      | None \<Rightarrow>
          (case rt of
             DoError m \<Rightarrow> (JobStatus_zero, None)
           | DoResponse resp \<Rightarrow>
               if StatusCode resp = http_StatusAccepted then JobStatus_Accepted L resp
               else if StatusCode resp = http_StatusOK then JobStatus_OK L resp
               else if StatusCode resp = http_StatusUnauthorized
               then (JobStatus_zero, Some ErrorUnauthorized)
               else (JobStatus_zero,
                     Some (Errorf ''unexpected non-OK http status code: %d %w''
                             (StatusCode resp) ErrorUnexpectedStatusCode))))"

subsection \<open>MonitorJobStatus\<close>

record MonitorResult =
  Status :: JobStatus
  Error :: "error option"

text \<open>
  What the goroutine of \<^verbatim>\<open>MonitorJobStatus\<close> does, step by step: it calls
  \<^verbatim>\<open>c.JobStatus\<close>, calls \<^verbatim>\<open>c.Authenticate\<close>, sends a result on the channel, sleeps for
  the check period, and closes the channel.
\<close>

datatype action =
    CallJobStatus
  | CallAuthenticate
  | Send MonitorResult
  | Sleep
  | Close

text \<open>
  One entry for each time the loop's condition finds the clock before the deadline: the
  outcomes of the HTTP call of \<^verbatim>\<open>JobStatus\<close> and of the HTTP call of \<^verbatim>\<open>Authenticate\<close> in
  that iteration (read only if the call is made).
\<close>

record Iteration =
  poll :: RoundTrip
  auth :: RoundTrip

text \<open>
  The loop \<^verbatim>\<open>for !jobStatus.IsComplete && time.Now().Before(deadline)\<close>. The list holds an
  entry for each test of the clock that finds it before the deadline; when the list is
  used up the deadline has passed. The result is the last \<^verbatim>\<open>jobStatus\<close> and the steps
  taken. The consumer is taken to read the channel, so that no send blocks.
\<close>

fun monitor_loop ::
  "Libs \<Rightarrow> string \<Rightarrow> Client \<Rightarrow> JobStatus \<Rightarrow> Iteration list \<Rightarrow> JobStatus \<times> action list" where
  "monitor_loop L jobStatusURL c jobStatus [] = (jobStatus, [])"
| "monitor_loop L jobStatusURL c jobStatus (it # its) =
     (if IsComplete jobStatus then (jobStatus, [])
      else
        (case Client_JobStatus L c jobStatusURL (poll it) of
           (jobStatus', Some err) \<Rightarrow>
             if errors_Is err ErrorUnauthorized
             then
               (case Client_Authenticate L c (auth it) of
                  (c', tok, Some err') \<Rightarrow>
                    (case monitor_loop L jobStatusURL c' jobStatus' its of
                       (st, steps) \<Rightarrow>
                         (st, [CallJobStatus, CallAuthenticate,
                               Send \<lparr>Status = JobStatus_zero, Error = Some err'\<rparr>] @ steps))
                | (c', tok, None) \<Rightarrow>
                    (case monitor_loop L jobStatusURL c' jobStatus' its of
                       (st, steps) \<Rightarrow> (st, [CallJobStatus, CallAuthenticate] @ steps)))
             else
               (case monitor_loop L jobStatusURL c jobStatus' its of
                  (st, steps) \<Rightarrow>
                    (st, [CallJobStatus, Send \<lparr>Status = JobStatus_zero, Error = Some err\<rparr>] @
                         (if \<not> IsComplete jobStatus' then [Sleep] else []) @ steps))
         | (jobStatus', None) \<Rightarrow>
             (case monitor_loop L jobStatusURL c jobStatus' its of
                (st, steps) \<Rightarrow>
                  (st, [CallJobStatus, Send \<lparr>Status = jobStatus', Error = None\<rparr>] @
                       (if \<not> IsComplete jobStatus' then [Sleep] else []) @ steps))))"

text \<open>
  \<^verbatim>\<open>Client.MonitorJobStatus\<close>: the steps of its goroutine, from the first test of the
  loop's condition to the closing of the channel.
\<close>

definition Client_MonitorJobStatus :: "Libs \<Rightarrow> Client \<Rightarrow> string \<Rightarrow> Iteration list \<Rightarrow> action list" where
  "Client_MonitorJobStatus L c jobStatusURL its =
     (case monitor_loop L jobStatusURL c JobStatus_zero its of
        (jobStatus, steps) \<Rightarrow>
          steps @
          (if \<not> IsComplete jobStatus
           then [Send \<lparr>Status = JobStatus_zero, Error = Some ErrorTimeout\<rparr>] else []) @
          [Close])"

text \<open>The results sent on the channel, in order.\<close>

fun sent :: "action list \<Rightarrow> MonitorResult list" where
  "sent [] = []"
| "sent (Send m # steps) = m # sent steps"
| "sent (a # steps) = sent steps"

text \<open>
  A terminal event: a result with no error whose status is complete, or the timeout
  error.
\<close>

definition terminal :: "MonitorResult \<Rightarrow> bool" where
  "terminal m = (Error m = None \<and> IsComplete (Status m) \<or> Error m = Some ErrorTimeout)"

section \<open>Concrete values\<close>

text \<open>
  A concrete set of library functions: every request can be built; the decoder knows one
  body, that of a finished job with two Patient files, and rejects every other; a token
  response's body is the token; the instant parser knows one instant; \<^verbatim>\<open>int\<close> has 64
  bits.
\<close>

definition demoJobStatusResponse :: jobStatusResponse where
  "demoJobStatusResponse =
     \<lparr>Output = [\<lparr>ResourceType = ''Patient'', URL = ''u1''\<rparr>,
                \<lparr>ResourceType = ''Patient'', URL = ''u2''\<rparr>],
      TransactionTime = ''2021-01-01T00:00:00Z''\<rparr>"

definition demoLibs :: Libs where
  "demoLibs =
     \<lparr>http_NewRequest = (\<lambda>u. None),
      Decode_jobStatusResponse =
        (\<lambda>b. if b = ''{transactionTime: 2021-01-01T00:00:00Z, output: [Patient u1, Patient u2]}''
              then Inr demoJobStatusResponse else Inl ''invalid character''),
      Decode_tokenResponse = (\<lambda>b. Inr b),
      ParseFHIRInstant =
        (\<lambda>s. if s = ''2021-01-01T00:00:00Z'' then Inr 1609459200 else Inl ''not an instant''),
      IntSize = 64\<rparr>"

text \<open>
  The same libraries with a decoder that knows two more bodies of a finished job: one
  whose transaction time is no instant, and one with an entry of a type that has no wire
  name.
\<close>

definition demoJobStatusResponse_badTime :: jobStatusResponse where
  "demoJobStatusResponse_badTime =
     \<lparr>Output = [\<lparr>ResourceType = ''Patient'', URL = ''u1''\<rparr>], TransactionTime = ''yesterday''\<rparr>"

definition demoJobStatusResponse_unknownType :: jobStatusResponse where
  "demoJobStatusResponse_unknownType =
     \<lparr>Output = [\<lparr>ResourceType = ''Patient'', URL = ''u1''\<rparr>,
                \<lparr>ResourceType = ''Observation'', URL = ''u2''\<rparr>],
      TransactionTime = ''2021-01-01T00:00:00Z''\<rparr>"

definition demoLibs2 :: Libs where
  "demoLibs2 =
     demoLibs\<lparr>Decode_jobStatusResponse :=
       (\<lambda>b. if b = ''{transactionTime: yesterday, output: [Patient u1]}''
             then Inr demoJobStatusResponse_badTime
             else if b = ''{transactionTime: 2021-01-01T00:00:00Z, output: [Patient u1, Observation u2]}''
             then Inr demoJobStatusResponse_unknownType
             else Decode_jobStatusResponse demoLibs b)\<rparr>"

definition demoClient :: Client where
  "demoClient =
     \<lparr>baseURL = ''https://example.org/api'', fullAuthURL = ''https://example.org/auth'',
      clientID = ''id'', clientSecret = ''secret'', authScopes = [], token = ''token''\<rparr>"

text \<open>Responses with a status code, one list of progress headers and a body.\<close>

definition demoResponse :: "int \<Rightarrow> string list \<Rightarrow> string \<Rightarrow> Response" where
  "demoResponse code progress body =
     \<lparr>StatusCode = code, Header = (\<lambda>h. if h = xProgress then progress else []), Body = body\<rparr>"

subsection \<open>The result map by the words of the specification\<close>

text \<open>
  The result locations grouped by type, in the server's order within each type: the URLs
  of the items of a type are the URLs of the output list filtered by that type.
\<close>

definition spec_urls_of_type :: "jobStatusOutput list \<Rightarrow> ResourceType \<Rightarrow> string list" where
  "spec_urls_of_type out r =
     map URL (filter (\<lambda>item. fst (ResourceTypeFromAPI (ResourceType item)) = r) out)"

definition spec_ResultURLs :: "jobStatusOutput list \<Rightarrow> (ResourceType \<rightharpoonup> string list)" where
  "spec_ResultURLs out =
     (\<lambda>r. if spec_urls_of_type out r = [] then None else Some (spec_urls_of_type out r))"

subsection \<open>Polls that complete without an error\<close>

text \<open>
  No poll of the list, whatever the client's token, returns a complete status together
  with an error.
\<close>

definition error_free_completion :: "Libs \<Rightarrow> string \<Rightarrow> Iteration list \<Rightarrow> bool" where
  "error_free_completion L url its =
     (\<forall>c it. it \<in> set its \<longrightarrow>
        IsComplete (fst (Client_JobStatus L c url (poll it))) \<longrightarrow>
        snd (Client_JobStatus L c url (poll it)) = None)"

section \<open>Package processing: the resource wrapper\<close>

text \<open>
  The struct \<^verbatim>\<open>resourceWrapper\<close>. The structured form (a \<^verbatim>\<open>*rpb.ContainedResource\<close>) is a
  value of a type \<open>'p\<close>; a nil pointer and a nil byte slice are \<open>None\<close>. The fields
  \<open>unmarshaller\<close> and \<open>marshaller\<close> hold the two functions of the jsonformat library that the
  wrapper calls, \<^verbatim>\<open>UnmarshalR4\<close> and \<^verbatim>\<open>Marshal\<close>; each gives the error's message when it
  fails.
\<close>

record 'p resourceWrapper =
  unmarshaller :: "string \<Rightarrow> string + 'p"
  marshaller :: "'p option \<Rightarrow> string + string"
  resourceType :: int
  sourceURL :: string
  proto :: "'p option"
  json :: "string option"
  doneMutating :: bool

text \<open>The bytes of a slice; a nil slice has none.\<close>

definition bytes_of :: "string option \<Rightarrow> string" where
  "bytes_of b = (case b of None \<Rightarrow> [] | Some bs \<Rightarrow> bs)"

text \<open>
  \<^verbatim>\<open>resourceWrapper.Proto\<close>: the wrapper after the call, the pointer returned and the
  error.
\<close>

definition resourceWrapper_Proto ::
  "'p resourceWrapper \<Rightarrow> 'p resourceWrapper \<times> 'p option \<times> error option" where
  "resourceWrapper_Proto rw =
     (case (if proto rw = None
            then (case unmarshaller rw (bytes_of (json rw)) of
                    Inl m \<Rightarrow> Inl (Foreign m)
                  | Inr p \<Rightarrow> Inr (rw\<lparr>proto := Some p\<rparr>))
            else Inr rw) of
        Inl err \<Rightarrow> (rw, None, Some err)
      | Inr rw1 \<Rightarrow>
          (let rw2 = (if \<not> doneMutating rw1 then rw1\<lparr>json := None\<rparr> else rw1)
           in (rw2, proto rw2, None)))"

text \<open>\<^verbatim>\<open>resourceWrapper.JSON\<close>: the wrapper after the call, the bytes returned and the error.\<close>

definition resourceWrapper_JSON ::
  "'p resourceWrapper \<Rightarrow> 'p resourceWrapper \<times> string option \<times> error option" where
  "resourceWrapper_JSON rw =
     (if json rw = None
      then (case marshaller rw (proto rw) of
              Inl m \<Rightarrow> (rw, None, Some (Foreign m))
            | Inr bs \<Rightarrow> (rw\<lparr>json := Some bs\<rparr>, Some bs, None))
      else (rw, json rw, None))"

section \<open>Package processing: the pipeline\<close>

text \<open>
  A value of the interface \<^verbatim>\<open>ResourceWrapper\<close>: a pointer to a \<^verbatim>\<open>resourceWrapper\<close> (its
  address), or a value of another type that implements the interface.
\<close>

datatype resource = Wrapper nat | Custom nat

text \<open>
  The state that processors and sinks can read and change: the wrappers behind the
  pointers, the next free address, and the state of the processors and sinks themselves
  (of a type \<open>'u\<close>).
\<close>

record ('p, 'u) stage_state =
  wrappers :: "nat \<Rightarrow> 'p resourceWrapper"
  next_wrapper :: nat
  user :: 'u

text \<open>
  The calls that the pipeline makes on the methods of its processors and sinks, each with
  the position of the processor or sink in its list.
\<close>

datatype call =
    ProcessorProcess nat resource
  | ProcessorFinalize nat
  | SinkWrite nat resource
  | SinkFinalize nat

text \<open>
  The pipeline's functions run on the stage state and the list of calls made so far. The
  list is kept by the pipeline's own code; processors and sinks do not see it.
\<close>

type_synonym ('p, 'u) world = "('p, 'u) stage_state \<times> call list"

type_synonym ('p, 'u) OutputFunction =
  "resource \<Rightarrow> ('p, 'u) world \<Rightarrow> error option \<times> ('p, 'u) world"

text \<open>
  A run of a method of a processor: it returns an error (or nil) in a state, or it calls
  the output function it was given with a resource in a state, and goes on from the error
  and the state that the output function returns.
\<close>

datatype ('p, 'u) run =
    Return "error option" "('p, 'u) stage_state"
  | CallOutput resource "('p, 'u) stage_state"
      "error option \<Rightarrow> ('p, 'u) stage_state \<Rightarrow> ('p, 'u) run"

primrec exec ::
  "('p, 'u) run \<Rightarrow> ('p, 'u) OutputFunction \<Rightarrow> call list \<Rightarrow> error option \<times> ('p, 'u) world" where
  "exec (Return e st) = (\<lambda>out tr. (e, (st, tr)))"
| "exec (CallOutput r st k) =
     (\<lambda>out tr. case out r (st, tr) of (e, (st', tr')) \<Rightarrow> exec (k e st') out tr')"

text \<open>
  A processor: the output function stored by \<^verbatim>\<open>SetOutput\<close>, and the runs of \<^verbatim>\<open>Process\<close> and
  \<^verbatim>\<open>Finalize\<close>. \<^verbatim>\<open>SetOutput\<close> is taken to store the function it is given, as
  \<^verbatim>\<open>BaseProcessor.SetOutput\<close> does, and the runs of a processor call no other output than
  the stored one. A sink: \<^verbatim>\<open>Write\<close> and \<^verbatim>\<open>Finalize\<close>, which call nothing of the pipeline.
\<close>

record ('p, 'u) Processor =
  Output :: "('p, 'u) OutputFunction"
  Process :: "resource \<Rightarrow> ('p, 'u) stage_state \<Rightarrow> ('p, 'u) run"
  Finalize :: "('p, 'u) stage_state \<Rightarrow> ('p, 'u) run"

record ('p, 'u) Sink =
  Write :: "resource \<Rightarrow> ('p, 'u) stage_state \<Rightarrow> error option \<times> ('p, 'u) stage_state"
  Finalize :: "('p, 'u) stage_state \<Rightarrow> error option \<times> ('p, 'u) stage_state"

definition SetOutput :: "('p, 'u) OutputFunction \<Rightarrow> ('p, 'u) Processor \<Rightarrow> ('p, 'u) Processor" where
  "SetOutput out pr = pr\<lparr>Output := out\<rparr>"

text \<open>\<^verbatim>\<open>BaseProcessor.Finalize\<close> does nothing.\<close>

definition BaseProcessor_Finalize :: "('p, 'u) stage_state \<Rightarrow> ('p, 'u) run" where
  "BaseProcessor_Finalize st = Return None st"

text \<open>
  The method value \<^verbatim>\<open>processors[i].Process\<close> as an output function: the call is noted, and
  the run of \<open>Process\<close> is given the output function stored in the processor.
\<close>

definition call_Process :: "nat \<Rightarrow> ('p, 'u) Processor \<Rightarrow> ('p, 'u) OutputFunction" where
  "call_Process i pr r w =
     (case w of (st, tr) \<Rightarrow> exec (Process pr r st) (Output pr) (tr @ [ProcessorProcess i r]))"

subsection \<open>writeToSinks\<close>

text \<open>The type assertion and the assignment \<^verbatim>\<open>rw.doneMutating = true\<close>.\<close>

definition markDone :: "resource \<Rightarrow> ('p, 'u) stage_state \<Rightarrow> ('p, 'u) stage_state" where
  "markDone r st =
     (case r of
        Wrapper a \<Rightarrow> st\<lparr>wrappers := (wrappers st)(a := (wrappers st a)\<lparr>doneMutating := True\<rparr>)\<rparr>
      | Custom k \<Rightarrow> st)"

text \<open>The loop over \<^verbatim>\<open>p.sinks\<close>; \<open>i\<close> is the position of the head of the list.\<close>

fun write_sinks ::
  "('p, 'u) Sink list \<Rightarrow> nat \<Rightarrow> resource \<Rightarrow> ('p, 'u) world \<Rightarrow> error option \<times> ('p, 'u) world" where
  "write_sinks [] i r w = (None, w)"
| "write_sinks (s # ss) i r (st, tr) =
     (case Write s r st of
        (Some err, st') \<Rightarrow> (Some err, (st', tr @ [SinkWrite i r]))
      | (None, st') \<Rightarrow> write_sinks ss (Suc i) r (st', tr @ [SinkWrite i r]))"

definition Pipeline_writeToSinks :: "('p, 'u) Sink list \<Rightarrow> ('p, 'u) OutputFunction" where
  "Pipeline_writeToSinks ss r w = (case w of (st, tr) \<Rightarrow> write_sinks ss 0 r (markDone r st, tr))"

subsection \<open>NewPipeline\<close>

record ('p, 'u) Pipeline =
  pipeline_unmarshaller :: "string \<Rightarrow> string + 'p"
  pipeline_marshaller :: "'p option \<Rightarrow> string + string"
  processors :: "('p, 'u) Processor list"
  sinks :: "('p, 'u) Sink list"
  pipelineFunc :: "('p, 'u) OutputFunction"

text \<open>
  The loop \<^verbatim>\<open>for i := len(processors) - 1; i >= 0; i--\<close>: with \<open>Suc i\<close> steps left it
  handles the processor at position \<open>i\<close>, storing the function built so far as its output
  and taking its \<open>Process\<close> as the new function.
\<close>

fun wire ::
  "nat \<Rightarrow> ('p, 'u) Processor list \<Rightarrow> ('p, 'u) OutputFunction \<Rightarrow>
   ('p, 'u) Processor list \<times> ('p, 'u) OutputFunction" where
  "wire 0 prs f = (prs, f)"
| "wire (Suc i) prs f =
     wire i (prs[i := SetOutput f (prs ! i)]) (call_Process i (SetOutput f (prs ! i)))"

text \<open>
  \<^verbatim>\<open>NewPipeline\<close>. The two constructors of the jsonformat library are calls into another
  package; their results are arguments, \<open>Inl\<close> with the message when one fails.
\<close>

definition NewPipeline ::
  "string + (string \<Rightarrow> string + 'p) \<Rightarrow> string + ('p option \<Rightarrow> string + string) \<Rightarrow>
   ('p, 'u) Processor list \<Rightarrow> ('p, 'u) Sink list \<Rightarrow> error + ('p, 'u) Pipeline" where
  "NewPipeline newUnmarshaller newMarshaller prs ss =
     (case newUnmarshaller of
        Inl m \<Rightarrow> Inl (Foreign m)
      | Inr um \<Rightarrow>
          (case newMarshaller of
             Inl m \<Rightarrow> Inl (Foreign m)
           | Inr ma \<Rightarrow>
               (case wire (length prs) prs (Pipeline_writeToSinks ss) of
                  (prs', f) \<Rightarrow>
                    Inr \<lparr>pipeline_unmarshaller = um, pipeline_marshaller = ma,
                         processors = prs', sinks = ss, pipelineFunc = f\<rparr>)))"

subsection \<open>Process and Finalize\<close>

text \<open>
  \<^verbatim>\<open>Pipeline.Process\<close>: a new wrapper is allocated and handed to the pipeline function.
\<close>

definition Pipeline_Process ::
  "('p, 'u) Pipeline \<Rightarrow> int \<Rightarrow> string \<Rightarrow> string option \<Rightarrow> ('p, 'u) world \<Rightarrow>
   error option \<times> ('p, 'u) world" where
  "Pipeline_Process p rt url js w =
     (case w of
        (st, tr) \<Rightarrow>
          pipelineFunc p (Wrapper (next_wrapper st))
            (st\<lparr>wrappers := (wrappers st)
                  (next_wrapper st :=
                     \<lparr>unmarshaller = pipeline_unmarshaller p, marshaller = pipeline_marshaller p,
                      resourceType = rt, sourceURL = url, proto = None, json = js,
                      doneMutating = False\<rparr>),
                next_wrapper := Suc (next_wrapper st)\<rparr>, tr))"

text \<open>The two loops of \<^verbatim>\<open>Pipeline.Finalize\<close>; \<open>i\<close> is the position of the head of the list.\<close>

fun finalize_processors ::
  "('p, 'u) Processor list \<Rightarrow> nat \<Rightarrow> ('p, 'u) world \<Rightarrow> error option \<times> ('p, 'u) world" where
  "finalize_processors [] i w = (None, w)"
| "finalize_processors (pr # prs) i (st, tr) =
     (case exec (Processor.Finalize pr st) (Output pr) (tr @ [ProcessorFinalize i]) of
        (Some err, w') \<Rightarrow> (Some err, w')
      | (None, w') \<Rightarrow> finalize_processors prs (Suc i) w')"

fun finalize_sinks ::
  "('p, 'u) Sink list \<Rightarrow> nat \<Rightarrow> ('p, 'u) world \<Rightarrow> error option \<times> ('p, 'u) world" where
  "finalize_sinks [] i w = (None, w)"
| "finalize_sinks (s # ss) i (st, tr) =
     (case Sink.Finalize s st of
        (Some err, st') \<Rightarrow> (Some err, (st', tr @ [SinkFinalize i]))
      | (None, st') \<Rightarrow> finalize_sinks ss (Suc i) (st', tr @ [SinkFinalize i]))"

definition Pipeline_Finalize ::
  "('p, 'u) Pipeline \<Rightarrow> ('p, 'u) world \<Rightarrow> error option \<times> ('p, 'u) world" where
  "Pipeline_Finalize p w =
     (case finalize_processors (processors p) 0 w of
        (Some err, w') \<Rightarrow> (Some err, w')
      | (None, w') \<Rightarrow> finalize_sinks (sinks p) 0 w')"

subsection \<open>The pipeline by the words of the specification\<close>

text \<open>
  The composed entry point as the specification describes it: the first processor runs
  with the second as its output, and so on; the output of the last processor is the
  sink-writing stage. \<open>spec_chain i prs ss\<close> is the function for the processors \<open>prs\<close> at
  positions \<open>i\<close> onwards, and \<open>spec_wired i prs ss\<close> are these processors with their outputs
  stored.
\<close>

fun spec_chain ::
  "nat \<Rightarrow> ('p, 'u) Processor list \<Rightarrow> ('p, 'u) Sink list \<Rightarrow> ('p, 'u) OutputFunction" where
  "spec_chain i [] ss = Pipeline_writeToSinks ss"
| "spec_chain i (pr # prs) ss = call_Process i (SetOutput (spec_chain (Suc i) prs ss) pr)"

fun spec_wired ::
  "nat \<Rightarrow> ('p, 'u) Processor list \<Rightarrow> ('p, 'u) Sink list \<Rightarrow> ('p, 'u) Processor list" where
  "spec_wired i [] ss = []"
| "spec_wired i (pr # prs) ss =
     SetOutput (spec_chain (Suc i) prs ss) pr # spec_wired (Suc i) prs ss"


text \<open>The calls of \<open>Finalize\<close> in a list of calls.\<close>

fun is_finalize :: "call \<Rightarrow> bool" where
  "is_finalize (ProcessorFinalize i) = True"
| "is_finalize (SinkFinalize i) = True"
| "is_finalize c = False"

definition finalize_calls :: "call list \<Rightarrow> call list" where
  "finalize_calls tr = filter is_finalize tr"

text \<open>An output function that only adds calls to the list, none of them of \<open>Finalize\<close>.\<close>

definition quiet :: "('p, 'u) OutputFunction \<Rightarrow> bool" where
  "quiet out =
     (\<forall>r st tr e st' tr'. out r (st, tr) = (e, (st', tr')) \<longrightarrow>
        (\<exists>ext. tr' = tr @ ext \<and> finalize_calls ext = []))"

text \<open>
  One call of a sink's \<open>Write\<close>, of a processor's \<open>Finalize\<close> and of a sink's \<open>Finalize\<close>
  as the pipeline makes it: the call is noted in the list of calls.
\<close>

definition call_Write ::
  "resource \<Rightarrow> nat \<Rightarrow> ('p, 'u) Sink \<Rightarrow> ('p, 'u) world \<Rightarrow> error option \<times> ('p, 'u) world" where
  "call_Write r i s w =
     (case w of (st, tr) \<Rightarrow>
        (case Write s r st of (e, st') \<Rightarrow> (e, (st', tr @ [SinkWrite i r]))))"

definition call_ProcessorFinalize ::
  "nat \<Rightarrow> ('p, 'u) Processor \<Rightarrow> ('p, 'u) world \<Rightarrow> error option \<times> ('p, 'u) world" where
  "call_ProcessorFinalize i pr w =
     (case w of (st, tr) \<Rightarrow>
        exec (Processor.Finalize pr st) (Output pr) (tr @ [ProcessorFinalize i]))"

definition call_SinkFinalize ::
  "nat \<Rightarrow> ('p, 'u) Sink \<Rightarrow> ('p, 'u) world \<Rightarrow> error option \<times> ('p, 'u) world" where
  "call_SinkFinalize i s w =
     (case w of (st, tr) \<Rightarrow>
        (case Sink.Finalize s st of (e, st') \<Rightarrow> (e, (st', tr @ [SinkFinalize i]))))"

text \<open>
  The writes of a list of sinks in list order, and the finalize calls of a pipeline:
  those of the processors in list order, then those of the sinks in list order.
\<close>

definition sink_writers ::
  "('p, 'u) Sink list \<Rightarrow> resource \<Rightarrow> (('p, 'u) world \<Rightarrow> error option \<times> ('p, 'u) world) list" where
  "sink_writers ss r = map (\<lambda>(i, s). call_Write r i s) (enumerate 0 ss)"

definition finalizers ::
  "('p, 'u) Pipeline \<Rightarrow> (('p, 'u) world \<Rightarrow> error option \<times> ('p, 'u) world) list" where
  "finalizers p =
     map (\<lambda>(i, pr). call_ProcessorFinalize i pr) (enumerate 0 (processors p)) @
     map (\<lambda>(i, s). call_SinkFinalize i s) (enumerate 0 (sinks p))"

text \<open>
  The world in which the call at position \<open>j\<close> of a list starts, when the calls before it
  have been made one after the other.
\<close>

fun world_before :: "('w \<Rightarrow> error option \<times> 'w) list \<Rightarrow> 'w \<Rightarrow> nat \<Rightarrow> 'w" where
  "world_before fs w 0 = w"
| "world_before fs w (Suc j) = snd ((fs ! j) (world_before fs w j))"

text \<open>The calls of a list made in order up to the first that returns an error.\<close>

fun until_error :: "('w \<Rightarrow> error option \<times> 'w) list \<Rightarrow> 'w \<Rightarrow> error option \<times> 'w" where
  "until_error [] w = (None, w)"
| "until_error (f # fs) w =
     (case f w of (Some err, w') \<Rightarrow> (Some err, w') | (None, w') \<Rightarrow> until_error fs w')"

subsection \<open>Concrete wrappers, processors and sinks\<close>

text \<open>
  A structured form that is a number: the unmarshaller takes the length of the bytes and
  rejects an empty input, the marshaller writes that many letters and rejects nil.
\<close>

definition demoUnmarshal :: "string \<Rightarrow> string + nat" where
  "demoUnmarshal bs = (if bs = [] then Inl ''unexpected end of JSON input'' else Inr (length bs))"

definition demoMarshal :: "nat option \<Rightarrow> string + string" where
  "demoMarshal p = (case p of None \<Rightarrow> Inl ''nil resource'' | Some n \<Rightarrow> Inr (replicate n CHR ''x''))"

definition demoWrapper :: "nat resourceWrapper" where
  "demoWrapper =
     \<lparr>unmarshaller = demoUnmarshal, marshaller = demoMarshal, resourceType = 1,
      sourceURL = ''https://example.org/data/1'', proto = None, json = Some ''abc'',
      doneMutating = False\<rparr>"

text \<open>
  The state of the stages is a list of buffered resources. \<open>demoForwarder\<close> passes each
  resource on; \<open>demoBatcher\<close> buffers the resources and passes them on when it is
  finalized, stopping at the first error of its output; \<open>demoFailingProcessor\<close> forwards
  and fails to finalize. \<open>demoSink\<close> accepts every write; \<open>demoFailingSink\<close> fails every
  write and its finalize.
\<close>

definition demoForwarder :: "(nat, resource list) Processor" where
  "demoForwarder =
     \<lparr>Output = (\<lambda>r w. (None, w)),
      Process = (\<lambda>r st. CallOutput r st Return),
      Finalize = BaseProcessor_Finalize\<rparr>"

fun flush :: "resource list \<Rightarrow> (nat, resource list) stage_state \<Rightarrow> (nat, resource list) run" where
  "flush [] st = Return None st"
| "flush (r # rs) st =
     CallOutput r st (\<lambda>e st'. case e of None \<Rightarrow> flush rs st' | Some err \<Rightarrow> Return (Some err) st')"

definition demoBatcher :: "(nat, resource list) Processor" where
  "demoBatcher =
     \<lparr>Output = (\<lambda>r w. (None, w)),
      Process = (\<lambda>r st. Return None (st\<lparr>user := user st @ [r]\<rparr>)),
      Finalize = (\<lambda>st. flush (user st) (st\<lparr>user := []\<rparr>))\<rparr>"

definition demoFailingProcessor :: "(nat, resource list) Processor" where
  "demoFailingProcessor =
     \<lparr>Output = (\<lambda>r w. (None, w)),
      Process = (\<lambda>r st. CallOutput r st Return),
      Finalize = (\<lambda>st. Return (Some (New ''flush failed'')) st)\<rparr>"

definition demoSink :: "(nat, resource list) Sink" where
  "demoSink = \<lparr>Write = (\<lambda>r st. (None, st)), Finalize = (\<lambda>st. (None, st))\<rparr>"

definition demoFailingSink :: "(nat, resource list) Sink" where
  "demoFailingSink =
     \<lparr>Write = (\<lambda>r st. (Some (New ''disk full''), st)),
      Finalize = (\<lambda>st. (Some (New ''close failed''), st))\<rparr>"

definition demoState :: "(nat, resource list) stage_state" where
  "demoState = \<lparr>wrappers = (\<lambda>a. demoWrapper), next_wrapper = 0, user = []\<rparr>"

text \<open>The pipeline of given processors and sinks, when both library constructors succeed.\<close>

definition demoPipeline ::
  "(nat, resource list) Processor list \<Rightarrow> (nat, resource list) Sink list \<Rightarrow>
   (nat, resource list) Pipeline" where
  "demoPipeline prs ss = projr (NewPipeline (Inr demoUnmarshal) (Inr demoMarshal) prs ss)"

section \<open>The wire names of the resource types\<close>

lemmas ResourceType_defs =
  Patient_def Coverage_def ExplanationOfBenefit_def OperationOutcome_def

text \<open>
  C10. Each of the four known resource types has a wire name, and reading that name back
  gives the same resource type with no error; a string that is none of the four wire names
  is rejected by \<open>ResourceTypeFromAPI\<close> with an error.
\<close>

theorem ResourceType_roundtrip:
  "(r \<in> {Patient, Coverage, ExplanationOfBenefit, OperationOutcome} \<longrightarrow>
      snd (ToAPI r) = None \<and> ResourceTypeFromAPI (fst (ToAPI r)) = (r, None)) \<and>
   (s \<notin> {''Patient'', ''Coverage'', ''ExplanationOfBenefit'', ''OperationOutcome''} \<longrightarrow>
      snd (ResourceTypeFromAPI s) \<noteq> None)"
  by (auto simp: ToAPI_def ResourceTypeFromAPI_def ResourceType_defs)

theorem ResourceType_roundtrip_witness:
  "ExplanationOfBenefit \<in> {Patient, Coverage, ExplanationOfBenefit, OperationOutcome} \<and>
   ToAPI ExplanationOfBenefit = (''ExplanationOfBenefit'', None) \<and>
   ResourceTypeFromAPI ''ExplanationOfBenefit'' = (ExplanationOfBenefit, None) \<and>
   ''Observation'' \<notin> {''Patient'', ''Coverage'', ''ExplanationOfBenefit'', ''OperationOutcome''} \<and>
   snd (ResourceTypeFromAPI ''Observation'') \<noteq> None"
  using ResourceType_roundtrip [of ExplanationOfBenefit "''Observation''"]
  by (simp add: ToAPI_def ResourceTypeFromAPI_def ResourceType_defs)

section \<open>JobStatus\<close>

subsection \<open>The progress header\<close>

lemma FindStringSubmatch_shape:
  "progressREGEX_FindStringSubmatch h = [] \<or>
   (\<exists>ds. progressREGEX_FindStringSubmatch h = [CHR ''('' # ds @ ''%)'', ds] \<and> ds \<noteq> [] \<and> list_all isDigit ds)"
proof (induction h)
  case Nil
  then show ?case by simp
next
  case (Cons c rest)
  show ?case
  proof (cases "progressREGEX_at (c # rest)")
    case None
    with Cons show ?thesis by simp
  next
    case (Some ds)
    then have "ds = takeWhile isDigit rest" "ds \<noteq> []"
      by (auto simp: progressREGEX_at_def split: if_splits)
    then have "list_all isDigit ds"
      by (simp add: list_all_iff) (meson set_takeWhileD)
    with Some \<open>ds \<noteq> []\<close> show ?thesis by simp
  qed
qed

text \<open>
  The pattern matches a string exactly when the string holds an opening parenthesis, one
  or more digits and \<^verbatim>\<open>%)\<close> in a row.
\<close>

lemma not_isDigit_percent: "\<not> isDigit CHR ''%''"
  by (simp add: isDigit_def)

lemma progressREGEX_at_match:
  assumes "ds \<noteq> []" and "list_all isDigit ds"
  shows "progressREGEX_at (''('' @ ds @ ''%)'' @ post) = Some ds"
proof -
  have all: "\<forall>x\<in>set ds. isDigit x" using assms(2) by (simp add: list_all_iff)
  have t: "takeWhile isDigit (ds @ ''%)'' @ post) = ds"
    using all by (simp add: takeWhile_append2 not_isDigit_percent)
  have d: "dropWhile isDigit (ds @ ''%)'' @ post) = ''%)'' @ post"
    using all by (simp add: dropWhile_append2 not_isDigit_percent)
  show ?thesis using assms(1) t d by (simp add: progressREGEX_at_def)
qed

lemma progressREGEX_at_Some:
  assumes "progressREGEX_at h = Some ds"
  shows "\<exists>post. h = ''('' @ ds @ ''%)'' @ post \<and> ds \<noteq> [] \<and> list_all isDigit ds"
proof -
  from assms obtain rest where h: "h = CHR ''('' # rest" and ds: "ds = takeWhile isDigit rest"
    and ne: "ds \<noteq> []" and t: "take 2 (dropWhile isDigit rest) = ''%)''"
    by (auto simp: progressREGEX_at_def split: list.splits if_splits)
  have "rest = ds @ dropWhile isDigit rest" using ds by simp
  moreover have "dropWhile isDigit rest = ''%)'' @ drop 2 (dropWhile isDigit rest)"
    using t append_take_drop_id [of 2 "dropWhile isDigit rest"] by simp
  ultimately have "h = ''('' @ ds @ ''%)'' @ drop 2 (dropWhile isDigit rest)"
    using h by (metis append_Cons append_Nil)
  moreover have "list_all isDigit ds"
    using ds by (simp add: list_all_iff) (meson set_takeWhileD)
  ultimately show ?thesis using ne by blast
qed

lemma FindStringSubmatch_iff:
  "progressREGEX_FindStringSubmatch h \<noteq> [] \<longleftrightarrow>
   (\<exists>pre ds post. h = pre @ ''('' @ ds @ ''%)'' @ post \<and> ds \<noteq> [] \<and> list_all isDigit ds)"
proof
  assume "progressREGEX_FindStringSubmatch h \<noteq> []"
  then show "\<exists>pre ds post. h = pre @ ''('' @ ds @ ''%)'' @ post \<and> ds \<noteq> [] \<and> list_all isDigit ds"
  proof (induction h)
    case Nil
    then show ?case by simp
  next
    case (Cons c rest)
    show ?case
    proof (cases "progressREGEX_at (c # rest)")
      case None
      with Cons.prems have "progressREGEX_FindStringSubmatch rest \<noteq> []" by simp
      from Cons.IH [OF this] obtain pre ds post where
        "rest = pre @ ''('' @ ds @ ''%)'' @ post" "ds \<noteq> []" "list_all isDigit ds" by blast
      then have "c # rest = (c # pre) @ ''('' @ ds @ ''%)'' @ post" by simp
      with \<open>ds \<noteq> []\<close> \<open>list_all isDigit ds\<close> show ?thesis by blast
    next
      case (Some ds)
      from progressREGEX_at_Some [OF this] obtain post where
        "c # rest = [] @ ''('' @ ds @ ''%)'' @ post" "ds \<noteq> []" "list_all isDigit ds" by auto
      then show ?thesis by blast
    qed
  qed
next
  assume "\<exists>pre ds post. h = pre @ ''('' @ ds @ ''%)'' @ post \<and> ds \<noteq> [] \<and> list_all isDigit ds"
  then obtain pre ds post where h: "h = pre @ ''('' @ ds @ ''%)'' @ post"
    and ds: "ds \<noteq> []" "list_all isDigit ds" by blast
  show "progressREGEX_FindStringSubmatch h \<noteq> []"
    unfolding h
  proof (induction pre)
    case Nil
    from progressREGEX_at_match [OF ds, of post] show ?case by simp
  next
    case (Cons p pre)
    then show ?case by (cases "progressREGEX_at ((p # pre) @ ''('' @ ds @ ''%)'' @ post)") auto
  qed
qed

lemma digitVal_range: "isDigit c \<Longrightarrow> 0 \<le> digitVal c \<and> digitVal c \<le> 9"
  by (simp add: isDigit_def digitVal_def)

lemma decimal_nonneg: "list_all isDigit ds \<Longrightarrow> 0 \<le> n \<Longrightarrow> 0 \<le> decimal ds n"
proof (induction ds arbitrary: n)
  case Nil
  then show ?case by simp
next
  case (Cons c cs)
  from Cons.prems have "0 \<le> digitVal c" by (simp add: digitVal_range)
  with Cons.prems have "0 \<le> n * 10 + digitVal c" by simp
  moreover from Cons.prems have "list_all isDigit cs" by simp
  ultimately have "0 \<le> decimal cs (n * 10 + digitVal c)" by (rule Cons.IH [rotated])
  then show ?case by simp
qed

lemma isDigit_not_sign: "isDigit c \<Longrightarrow> c \<noteq> CHR ''-'' \<and> c \<noteq> CHR ''+''"
  by (auto simp: isDigit_def)

lemma Atoi_digits:
  assumes "ds \<noteq> []" "list_all isDigit ds"
  shows "strconv_Atoi intSize ds =
    (if decimal ds 0 \<le> 2 ^ (intSize - 1) - 1 then (decimal ds 0, None)
     else (2 ^ (intSize - 1) - 1, Some (NumError ''Atoi'' ds ErrRange)))"
proof -
  obtain c cs where ds: "ds = c # cs" using assms(1) by (cases ds) auto
  with assms(2) have "isDigit c" by simp
  then have "c \<noteq> CHR ''-''" "c \<noteq> CHR ''+''" using isDigit_not_sign by auto
  then have "take 1 ds \<noteq> ''-''" "take 1 ds \<noteq> ''+''" using ds by auto
  moreover have "0 \<le> decimal ds 0" using assms(2) by (simp add: decimal_nonneg)
  moreover have "- (2 ^ (intSize - 1)) \<le> (0 :: int)" by simp
  ultimately show ?thesis using assms
    by (simp add: strconv_Atoi_def Let_def)
qed

subsection \<open>Transport failures\<close>

text \<open>
  C1. When the client has a token and the request is built, a call of \<open>JobStatus\<close> whose
  HTTP exchange fails at the transport level returns the zero value \<^verbatim>\<open>JobStatus{}\<close> and a
  nil error: the transport error is dropped.
\<close>

theorem JobStatus_transport_error_discarded:
  "token c \<noteq> [] \<Longrightarrow> http_NewRequest L url = None \<Longrightarrow>
   Client_JobStatus L c url (DoError m) = (JobStatus_zero, None)"
  by (simp add: Client_JobStatus_def)

theorem JobStatus_transport_error_discarded_witness:
  "token demoClient \<noteq> [] \<and> http_NewRequest demoLibs ''https://example.org/job/1'' = None \<and>
   Client_JobStatus demoLibs demoClient ''https://example.org/job/1''
     (DoError ''connection refused'') = (JobStatus_zero, None)"
  using JobStatus_transport_error_discarded
    [of demoClient demoLibs "''https://example.org/job/1''" "''connection refused''"]
  by (simp add: demoClient_def demoLibs_def)

subsection \<open>A pending job\<close>

text \<open>
  The outcomes of a response with status 202 (the client has a token and the request is
  built), as the code has them:
  \<^item> when the number of X-Progress header values is not one, the call fails with an error
    that wraps \<open>ErrorUnexpectedNumberOfXProgress\<close>;
  \<^item> when the one value has no match of the progress pattern, it fails with
    \<open>ErrorUnableToParseProgress\<close>;
  \<^item> when it has a match, the group is a non-empty run of digits; if their number fits
    the type \<^verbatim>\<open>int\<close> of the target the call returns a status that is not complete with
    that percentage, and if it does not the call returns the range error of
    \<^verbatim>\<open>strconv.Atoi\<close> as it is.
\<close>

theorem JobStatus_pending_response:
  assumes "token c \<noteq> []" and "http_NewRequest L url = None" and "StatusCode resp = 202"
  shows "(length (Header resp xProgress) \<noteq> 1 \<longrightarrow>
            Client_JobStatus L c url (DoResponse resp) =
              (JobStatus_zero,
               Some (Errorf ''one X-Progress header value expected. Instead got: %d %w''
                       (int (length (Header resp xProgress))) ErrorUnexpectedNumberOfXProgress))) \<and>
         (\<forall>h. Header resp xProgress = [h] \<longrightarrow>
            (case progressREGEX_FindStringSubmatch h of
               [] \<Rightarrow> Client_JobStatus L c url (DoResponse resp) =
                       (JobStatus_zero, Some ErrorUnableToParseProgress)
             | whole # groups \<Rightarrow>
                 (\<exists>ds. groups = [ds] \<and> ds \<noteq> [] \<and> list_all isDigit ds \<and>
                    whole = ''('' @ ds @ ''%)'' \<and>
                    Client_JobStatus L c url (DoResponse resp) =
                      (if decimal ds 0 \<le> 2 ^ (IntSize L - 1) - 1
                       then (\<lparr>IsComplete = False, PercentComplete = decimal ds 0,
                              ResultURLs = Map.empty, TransactionTime = 0\<rparr>, None)
                       else (JobStatus_zero, Some (NumError ''Atoi'' ds ErrRange))))))"
proof (intro conjI impI allI)
  assume "length (Header resp xProgress) \<noteq> 1"
  then show "Client_JobStatus L c url (DoResponse resp) =
              (JobStatus_zero,
               Some (Errorf ''one X-Progress header value expected. Instead got: %d %w''
                       (int (length (Header resp xProgress))) ErrorUnexpectedNumberOfXProgress))"
    using assms by (simp add: Client_JobStatus_def JobStatus_Accepted_def JobStatus_zero_def)
next
  fix h assume h: "Header resp xProgress = [h]"
  have js: "Client_JobStatus L c url (DoResponse resp) = JobStatus_Accepted L resp"
    using assms by (simp add: Client_JobStatus_def)
  from FindStringSubmatch_shape [of h]
  show "case progressREGEX_FindStringSubmatch h of
               [] \<Rightarrow> Client_JobStatus L c url (DoResponse resp) =
                       (JobStatus_zero, Some ErrorUnableToParseProgress)
             | whole # groups \<Rightarrow>
                 (\<exists>ds. groups = [ds] \<and> ds \<noteq> [] \<and> list_all isDigit ds \<and>
                    whole = ''('' @ ds @ ''%)'' \<and>
                    Client_JobStatus L c url (DoResponse resp) =
                      (if decimal ds 0 \<le> 2 ^ (IntSize L - 1) - 1
                       then (\<lparr>IsComplete = False, PercentComplete = decimal ds 0,
                              ResultURLs = Map.empty, TransactionTime = 0\<rparr>, None)
                       else (JobStatus_zero, Some (NumError ''Atoi'' ds ErrRange))))"
  proof
    assume "progressREGEX_FindStringSubmatch h = []"
    then show ?thesis using h js
      by (simp add: JobStatus_Accepted_def JobStatus_zero_def)
  next
    assume "\<exists>ds. progressREGEX_FindStringSubmatch h = [CHR ''('' # ds @ ''%)'', ds] \<and> ds \<noteq> [] \<and> list_all isDigit ds"
    then obtain ds where m: "progressREGEX_FindStringSubmatch h = [CHR ''('' # ds @ ''%)'', ds]"
      and ds: "ds \<noteq> []" "list_all isDigit ds" by blast
    show ?thesis using h js m ds Atoi_digits [OF ds, of "IntSize L"]
      by (simp add: JobStatus_Accepted_def JobStatus_zero_def)
  qed
qed

theorem JobStatus_pending_response_witness:
  "token demoClient \<noteq> [] \<and> http_NewRequest demoLibs ''https://example.org/job/1'' = None \<and>
   StatusCode (demoResponse 202 [''Retrieval is 50% complete (50%)''] []) = 202 \<and>
   Header (demoResponse 202 [''Retrieval is 50% complete (50%)''] []) xProgress =
     [''Retrieval is 50% complete (50%)''] \<and>
   progressREGEX_FindStringSubmatch ''Retrieval is 50% complete (50%)'' = [''(50%)'', ''50''] \<and>
   Client_JobStatus demoLibs demoClient ''https://example.org/job/1''
     (DoResponse (demoResponse 202 [''Retrieval is 50% complete (50%)''] [])) =
     (\<lparr>IsComplete = False, PercentComplete = 50, ResultURLs = Map.empty, TransactionTime = 0\<rparr>,
      None)"
  using JobStatus_pending_response
    [of demoClient demoLibs "''https://example.org/job/1''"
        "demoResponse 202 [''Retrieval is 50% complete (50%)''] []"]
  by (simp add: demoClient_def demoLibs_def demoResponse_def progressREGEX_at_def isDigit_def
      digitVal_def)

text \<open>
  C6 at a concrete response. A response with status 202 carries the one progress header
  \<^verbatim>\<open>(99999999999999999999%)\<close>. The pattern matches it and the digits fit no \<^verbatim>\<open>int\<close>, of
  64 bits or of 32. The claim is that digits which fail to parse give the progress-parse
  error, as the comment on \<open>ErrorUnableToParseProgress\<close> says and as the branch for a header
  without a match does. The code returns the error of \<^verbatim>\<open>strconv.Atoi\<close> as it is:
  \<^verbatim>\<open>errors.Is\<close> finds \<^verbatim>\<open>strconv.ErrRange\<close> in it and does not find
  \<open>ErrorUnableToParseProgress\<close>.
\<close>

theorem JobStatus_progress_overflow_returns_strconv_error:
  "progressREGEX_FindStringSubmatch ''(99999999999999999999%)'' =
     [''(99999999999999999999%)'', ''99999999999999999999''] \<and>
   Client_JobStatus demoLibs demoClient ''https://example.org/job/1''
     (DoResponse (demoResponse 202 [''(99999999999999999999%)''] [])) =
     (JobStatus_zero, Some (NumError ''Atoi'' ''99999999999999999999'' ErrRange)) \<and>
   Client_JobStatus (demoLibs\<lparr>IntSize := 32\<rparr>) demoClient ''https://example.org/job/1''
     (DoResponse (demoResponse 202 [''(99999999999999999999%)''] [])) =
     (JobStatus_zero, Some (NumError ''Atoi'' ''99999999999999999999'' ErrRange)) \<and>
   errors_Is (NumError ''Atoi'' ''99999999999999999999'' ErrRange) ErrRange \<and>
   \<not> errors_Is (NumError ''Atoi'' ''99999999999999999999'' ErrRange) ErrorUnableToParseProgress \<and>
   Client_JobStatus demoLibs demoClient ''https://example.org/job/1''
     (DoResponse (demoResponse 202 [''no percentage''] [])) =
     (JobStatus_zero, Some ErrorUnableToParseProgress)"
  by (simp add: Client_JobStatus_def JobStatus_Accepted_def JobStatus_zero_def strconv_Atoi_def
      demoClient_def demoLibs_def demoResponse_def progressREGEX_at_def isDigit_def digitVal_def)

subsection \<open>A finished job\<close>

lemma ResourceTypeFromAPI_error:
  "snd (ResourceTypeFromAPI s) \<noteq> None \<Longrightarrow>
   ResourceTypeFromAPI s = (- 1, Some (New ''not a valid ResourceType''))"
  by (simp add: ResourceTypeFromAPI_def split: if_splits)

lemma collectResultURLs_unknown:
  "list_ex (\<lambda>item. snd (ResourceTypeFromAPI (ResourceType item)) \<noteq> None) items \<Longrightarrow>
   collectResultURLs items jobStatus = (JobStatus_zero, Some (New ''not a valid ResourceType''))"
proof (induction items arbitrary: jobStatus)
  case Nil
  then show ?case by simp
next
  case (Cons item items)
  show ?case
  proof (cases "snd (ResourceTypeFromAPI (ResourceType item)) = None")
    case True
    then obtain r where r: "ResourceTypeFromAPI (ResourceType item) = (r, None)"
      by (cases "ResourceTypeFromAPI (ResourceType item)") auto
    from True Cons.prems
    have "list_ex (\<lambda>item. snd (ResourceTypeFromAPI (ResourceType item)) \<noteq> None) items"
      by simp
    then show ?thesis using r by (simp add: Cons.IH)
  next
    case False
    then show ?thesis using ResourceTypeFromAPI_error [of "ResourceType item"] by simp
  qed
qed

lemma collectResultURLs_known:
  "\<not> list_ex (\<lambda>item. snd (ResourceTypeFromAPI (ResourceType item)) \<noteq> None) items \<Longrightarrow>
   collectResultURLs items jobStatus =
     (jobStatus\<lparr>ResultURLs :=
        (\<lambda>r. if spec_urls_of_type items r = [] then ResultURLs jobStatus r
              else Some ((case ResultURLs jobStatus r of None \<Rightarrow> [] | Some us \<Rightarrow> us) @
                         spec_urls_of_type items r))\<rparr>, None)"
proof (induction items arbitrary: jobStatus)
  case Nil
  then show ?case by (simp add: spec_urls_of_type_def)
next
  case (Cons item items)
  from Cons.prems obtain r where r: "ResourceTypeFromAPI (ResourceType item) = (r, None)"
    by (cases "ResourceTypeFromAPI (ResourceType item)") auto
  from Cons.prems
  have rest: "\<not> list_ex (\<lambda>item. snd (ResourceTypeFromAPI (ResourceType item)) \<noteq> None) items"
    by simp
  show ?case
    using r by (simp add: Cons.IH [OF rest]) (auto simp: spec_urls_of_type_def fun_eq_iff)
qed

text \<open>
  C5, as the code has it. For a response with status 200 whose body decodes (the client
  has a token and the request is built): if some output entry has a type name that is no
  wire name, the whole call fails with the error of \<open>ResourceTypeFromAPI\<close> and the zero
  status; otherwise, if the transaction time parses, the call returns a complete status
  whose result map gives, for each resource type, the URLs of the entries of that type in
  the order of the server's list, and the parsed transaction time; and if the transaction
  time does not parse, the call fails with the parser's error and the zero status.
\<close>

theorem JobStatus_complete_response:
  assumes "token c \<noteq> []" and "http_NewRequest L url = None" and "StatusCode resp = 200"
    and "Decode_jobStatusResponse L (Body resp) = Inr jr"
  shows "Client_JobStatus L c url (DoResponse resp) =
     (if list_ex (\<lambda>item. snd (ResourceTypeFromAPI (ResourceType item)) \<noteq> None) (jobStatusResponse.Output jr)
      then (JobStatus_zero, Some (New ''not a valid ResourceType''))
      else case ParseFHIRInstant L (jobStatusResponse.TransactionTime jr) of
             Inl m \<Rightarrow> (JobStatus_zero, Some (Foreign m))
           | Inr t \<Rightarrow>
               (\<lparr>IsComplete = True, PercentComplete = 0,
                 ResultURLs = spec_ResultURLs (jobStatusResponse.Output jr), TransactionTime = t\<rparr>, None))"
proof -
  have js: "Client_JobStatus L c url (DoResponse resp) = JobStatus_OK L resp"
    using assms by (simp add: Client_JobStatus_def)
  show ?thesis
  proof (cases "list_ex (\<lambda>item. snd (ResourceTypeFromAPI (ResourceType item)) \<noteq> None) (jobStatusResponse.Output jr)")
    case True
    then show ?thesis using assms(4) js
      by (simp add: JobStatus_OK_def collectResultURLs_unknown Let_def)
  next
    case False
    then show ?thesis using assms(4) js
      by (auto simp: JobStatus_OK_def collectResultURLs_known JobStatus_zero_def
          spec_ResultURLs_def Let_def fun_eq_iff split: sum.splits)
  qed
qed

theorem JobStatus_complete_response_witness:
  "token demoClient \<noteq> [] \<and> http_NewRequest demoLibs2 ''https://example.org/job/1'' = None \<and>
   StatusCode (demoResponse 200 []
     ''{transactionTime: 2021-01-01T00:00:00Z, output: [Patient u1, Patient u2]}'') = 200 \<and>
   Decode_jobStatusResponse demoLibs2 (Body (demoResponse 200 []
     ''{transactionTime: 2021-01-01T00:00:00Z, output: [Patient u1, Patient u2]}'')) =
     Inr demoJobStatusResponse \<and>
   Client_JobStatus demoLibs2 demoClient ''https://example.org/job/1''
     (DoResponse (demoResponse 200 []
        ''{transactionTime: 2021-01-01T00:00:00Z, output: [Patient u1, Patient u2]}'')) =
     (\<lparr>IsComplete = True, PercentComplete = 0,
       ResultURLs = [Patient \<mapsto> [''u1'', ''u2'']], TransactionTime = 1609459200\<rparr>, None) \<and>
   StatusCode (demoResponse 200 []
     ''{transactionTime: 2021-01-01T00:00:00Z, output: [Patient u1, Observation u2]}'') = 200 \<and>
   Decode_jobStatusResponse demoLibs2 (Body (demoResponse 200 []
     ''{transactionTime: 2021-01-01T00:00:00Z, output: [Patient u1, Observation u2]}'')) =
     Inr demoJobStatusResponse_unknownType \<and>
   Client_JobStatus demoLibs2 demoClient ''https://example.org/job/1''
     (DoResponse (demoResponse 200 []
        ''{transactionTime: 2021-01-01T00:00:00Z, output: [Patient u1, Observation u2]}'')) =
     (JobStatus_zero, Some (New ''not a valid ResourceType''))"
proof -
  have tok: "token demoClient \<noteq> []" by (simp add: demoClient_def)
  have req: "http_NewRequest demoLibs2 ''https://example.org/job/1'' = None"
    by (simp add: demoLibs2_def demoLibs_def)
  have st1: "StatusCode (demoResponse 200 []
     ''{transactionTime: 2021-01-01T00:00:00Z, output: [Patient u1, Patient u2]}'') = 200"
    by (simp add: demoResponse_def)
  have dec1: "Decode_jobStatusResponse demoLibs2 (Body (demoResponse 200 []
     ''{transactionTime: 2021-01-01T00:00:00Z, output: [Patient u1, Patient u2]}'')) =
     Inr demoJobStatusResponse"
    by (simp add: demoLibs2_def demoLibs_def demoResponse_def)
  have st2: "StatusCode (demoResponse 200 []
     ''{transactionTime: 2021-01-01T00:00:00Z, output: [Patient u1, Observation u2]}'') = 200"
    by (simp add: demoResponse_def)
  have dec2: "Decode_jobStatusResponse demoLibs2 (Body (demoResponse 200 []
     ''{transactionTime: 2021-01-01T00:00:00Z, output: [Patient u1, Observation u2]}'')) =
     Inr demoJobStatusResponse_unknownType"
    by (simp add: demoLibs2_def demoLibs_def demoResponse_def)
  have r1: "Client_JobStatus demoLibs2 demoClient ''https://example.org/job/1''
     (DoResponse (demoResponse 200 []
        ''{transactionTime: 2021-01-01T00:00:00Z, output: [Patient u1, Patient u2]}'')) =
     (\<lparr>IsComplete = True, PercentComplete = 0,
       ResultURLs = [Patient \<mapsto> [''u1'', ''u2'']], TransactionTime = 1609459200\<rparr>, None)"
    using JobStatus_complete_response [OF tok req st1 dec1]
    by (simp add: demoLibs2_def demoLibs_def demoJobStatusResponse_def spec_ResultURLs_def
        spec_urls_of_type_def ResourceTypeFromAPI_def fun_eq_iff Patient_def)
  have r2: "Client_JobStatus demoLibs2 demoClient ''https://example.org/job/1''
     (DoResponse (demoResponse 200 []
        ''{transactionTime: 2021-01-01T00:00:00Z, output: [Patient u1, Observation u2]}'')) =
     (JobStatus_zero, Some (New ''not a valid ResourceType''))"
    using JobStatus_complete_response [OF tok req st2 dec2]
    by (simp add: demoJobStatusResponse_unknownType_def ResourceTypeFromAPI_def)
  from tok req st1 dec1 r1 st2 dec2 r2 show ?thesis by (intro conjI)
qed

text \<open>
  The claim as the specification states it promises, for every response with status 200
  whose entries all map, a complete status with the parsed transaction time. It fails on
  a body whose one entry is a Patient file and whose transaction time is no instant: the
  call returns the zero status, which is not complete, and the parser's error. It fails
  also on a body that does not decode, where the entries are never looked at.
\<close>

theorem JobStatus_unparsable_time_counterexample:
  "token demoClient \<noteq> [] \<and> http_NewRequest demoLibs2 ''https://example.org/job/1'' = None \<and>
   StatusCode (demoResponse 200 [] ''{transactionTime: yesterday, output: [Patient u1]}'') = 200 \<and>
   Decode_jobStatusResponse demoLibs2
     (Body (demoResponse 200 [] ''{transactionTime: yesterday, output: [Patient u1]}'')) =
     Inr demoJobStatusResponse_badTime \<and>
   \<not> list_ex (\<lambda>item. snd (ResourceTypeFromAPI (ResourceType item)) \<noteq> None)
        (jobStatusResponse.Output demoJobStatusResponse_badTime) \<and>
   Client_JobStatus demoLibs2 demoClient ''https://example.org/job/1''
     (DoResponse (demoResponse 200 [] ''{transactionTime: yesterday, output: [Patient u1]}'')) =
     (JobStatus_zero, Some (Foreign ''not an instant'')) \<and>
   \<not> IsComplete JobStatus_zero \<and>
   Client_JobStatus demoLibs2 demoClient ''https://example.org/job/1''
     (DoResponse (demoResponse 200 [] ''<html>'')) =
     (\<lparr>IsComplete = True, PercentComplete = 0, ResultURLs = Map.empty, TransactionTime = 0\<rparr>,
      Some (Foreign ''invalid character''))"
  by (simp add: Client_JobStatus_def JobStatus_OK_def JobStatus_zero_def demoClient_def
      demoLibs2_def demoLibs_def demoResponse_def demoJobStatusResponse_badTime_def
      ResourceTypeFromAPI_def)

section \<open>The job monitor\<close>

subsection \<open>Errors of JobStatus and Authenticate\<close>

lemma Atoi_error_NumError:
  "strconv_Atoi intSize s = (n, Some err) \<Longrightarrow>
   err = NumError ''Atoi'' s ErrSyntax \<or> err = NumError ''Atoi'' s ErrRange"
  by (auto simp: strconv_Atoi_def Let_def split: if_splits)

lemma JobStatus_Accepted_not_complete:
  "JobStatus_Accepted L resp = (st, e) \<Longrightarrow> \<not> IsComplete st"
  by (auto simp: JobStatus_Accepted_def Let_def JobStatus_zero_def split: if_splits prod.splits option.splits)

lemma JobStatus_Accepted_error:
  "JobStatus_Accepted L resp = (st, Some err) \<Longrightarrow>
   \<not> errors_Is err ErrorUnauthorized \<and> err \<noteq> ErrorTimeout"
  by (auto simp: JobStatus_Accepted_def Let_def split: if_splits prod.splits option.splits
      dest: Atoi_error_NumError)

lemma collectResultURLs_error:
  "collectResultURLs items jobStatus = (st, Some err) \<Longrightarrow>
   err = New ''not a valid ResourceType'' \<and> st = JobStatus_zero"
proof (induction items arbitrary: jobStatus)
  case Nil
  then show ?case by simp
next
  case (Cons item items)
  then show ?case
    using ResourceTypeFromAPI_error [of "ResourceType item"]
    by (auto split: prod.splits option.splits)
qed

lemma JobStatus_OK_error:
  "JobStatus_OK L resp = (st, Some err) \<Longrightarrow>
   \<not> errors_Is err ErrorUnauthorized \<and> err \<noteq> ErrorTimeout"
  by (auto simp: JobStatus_OK_def Let_def split: sum.splits prod.splits option.splits
      dest: collectResultURLs_error)

text \<open>An error of JobStatus that is Unauthorized is the sentinel itself, and comes with the zero status.\<close>

lemma JobStatus_Unauthorized:
  assumes "Client_JobStatus L c url rt = (st, Some err)" and "errors_Is err ErrorUnauthorized"
  shows "err = ErrorUnauthorized \<and> st = JobStatus_zero"
  using assms
  by (auto simp: Client_JobStatus_def split: if_splits option.splits RoundTrip.splits
      dest: JobStatus_Accepted_error JobStatus_OK_error)

lemma JobStatus_never_Timeout:
  "Client_JobStatus L c url rt = (st, Some err) \<Longrightarrow> err \<noteq> ErrorTimeout"
  by (auto simp: Client_JobStatus_def split: if_splits option.splits RoundTrip.splits
      dest: JobStatus_Accepted_error JobStatus_OK_error)

lemma Authenticate_error_Foreign:
  "Client_Authenticate L c rt = (c', tok, Some err) \<Longrightarrow> \<exists>m. err = Foreign m"
  by (auto simp: Client_Authenticate_def split: option.splits RoundTrip.splits sum.splits)

lemma monitor_loop_complete [simp]:
  "IsComplete jobStatus \<Longrightarrow> monitor_loop L url c jobStatus its = (jobStatus, [])"
  by (cases its) auto

lemma monitor_loop_first_step:
  "\<not> IsComplete jobStatus \<Longrightarrow> monitor_loop L url c jobStatus (it # its) = (st, steps) \<Longrightarrow>
   steps \<noteq> [] \<and> hd steps = CallJobStatus"
  by (auto split: prod.splits option.splits if_splits)

subsection \<open>A finished job whose body does not decode\<close>

text \<open>
  C3. When the response has status 200 and its body does not decode (the client has a
  token and the request is built), \<open>JobStatus\<close> returns the decoder's error together with a
  status whose \<open>IsComplete\<close> is true. In the monitor the error is sent, and the loop ends at
  its next test, whatever iterations the deadline would still allow: no sleep, no further
  poll and no timeout error follow the error event before the channel is closed.
\<close>

theorem JobStatus_undecodable_body_reports_complete:
  assumes "token c \<noteq> []" and "http_NewRequest L url = None" and "StatusCode resp = 200"
    and "Decode_jobStatusResponse L (Body resp) = Inl m"
  shows "Client_JobStatus L c url (DoResponse resp) =
           (\<lparr>IsComplete = True, PercentComplete = 0, ResultURLs = Map.empty, TransactionTime = 0\<rparr>,
            Some (Foreign m)) \<and>
         (\<not> IsComplete jobStatus \<longrightarrow>
            monitor_loop L url c jobStatus (\<lparr>poll = DoResponse resp, auth = a\<rparr> # its) =
              (\<lparr>IsComplete = True, PercentComplete = 0, ResultURLs = Map.empty, TransactionTime = 0\<rparr>,
               [CallJobStatus, Send \<lparr>Status = JobStatus_zero, Error = Some (Foreign m)\<rparr>])) \<and>
         Client_MonitorJobStatus L c url (\<lparr>poll = DoResponse resp, auth = a\<rparr> # its) =
           [CallJobStatus, Send \<lparr>Status = JobStatus_zero, Error = Some (Foreign m)\<rparr>, Close]"
proof -
  have js: "Client_JobStatus L c url (DoResponse resp) =
           (\<lparr>IsComplete = True, PercentComplete = 0, ResultURLs = Map.empty, TransactionTime = 0\<rparr>,
            Some (Foreign m))"
    using assms by (simp add: Client_JobStatus_def JobStatus_OK_def JobStatus_zero_def)
  have loop: "monitor_loop L url c jobStatus (\<lparr>poll = DoResponse resp, auth = a\<rparr> # its) =
              (\<lparr>IsComplete = True, PercentComplete = 0, ResultURLs = Map.empty, TransactionTime = 0\<rparr>,
               [CallJobStatus, Send \<lparr>Status = JobStatus_zero, Error = Some (Foreign m)\<rparr>])"
    if "\<not> IsComplete jobStatus" for jobStatus
    using that js by simp
  have "\<not> IsComplete JobStatus_zero" by (simp add: JobStatus_zero_def)
  from loop [OF this] have "Client_MonitorJobStatus L c url (\<lparr>poll = DoResponse resp, auth = a\<rparr> # its) =
           [CallJobStatus, Send \<lparr>Status = JobStatus_zero, Error = Some (Foreign m)\<rparr>, Close]"
    by (simp add: Client_MonitorJobStatus_def)
  with js loop show ?thesis by blast
qed

theorem JobStatus_undecodable_body_reports_complete_witness:
  "token demoClient \<noteq> [] \<and> http_NewRequest demoLibs ''https://example.org/job/1'' = None \<and>
   StatusCode (demoResponse 200 [] ''<html>'') = 200 \<and>
   Decode_jobStatusResponse demoLibs (Body (demoResponse 200 [] ''<html>'')) =
     Inl ''invalid character'' \<and>
   \<not> IsComplete JobStatus_zero \<and>
   IsComplete (fst (Client_JobStatus demoLibs demoClient ''https://example.org/job/1''
     (DoResponse (demoResponse 200 [] ''<html>'')))) \<and>
   snd (Client_JobStatus demoLibs demoClient ''https://example.org/job/1''
     (DoResponse (demoResponse 200 [] ''<html>''))) = Some (Foreign ''invalid character'') \<and>
   snd (monitor_loop demoLibs ''https://example.org/job/1'' demoClient JobStatus_zero
     [\<lparr>poll = DoResponse (demoResponse 200 [] ''<html>''), auth = DoError ''unused''\<rparr>,
      \<lparr>poll = DoResponse (demoResponse 202 [''(10%)''] []), auth = DoError ''unused''\<rparr>]) =
     [CallJobStatus,
      Send \<lparr>Status = JobStatus_zero, Error = Some (Foreign ''invalid character'')\<rparr>]"
  using JobStatus_undecodable_body_reports_complete
    [of demoClient demoLibs "''https://example.org/job/1''" "demoResponse 200 [] ''<html>''"
        "''invalid character''" JobStatus_zero "DoError ''unused''"
        "[\<lparr>poll = DoResponse (demoResponse 202 [''(10%)''] []), auth = DoError ''unused''\<rparr>]"]
  by (simp add: demoClient_def demoLibs_def demoResponse_def JobStatus_zero_def)

subsection \<open>Re-authentication\<close>

text \<open>
  C4. When a poll of the monitor's loop fails with the Unauthorized error, the monitor
  calls \<open>Authenticate\<close>; it sends nothing for the failed poll, and sends an error event
  only when \<open>Authenticate\<close> fails, carrying that error. In both cases it does not sleep:
  what follows is the rest of the loop, which starts with the next call of \<open>JobStatus\<close>
  when the deadline leaves an iteration, and is empty otherwise.
\<close>

theorem monitor_reauthenticates_without_sleep:
  assumes "\<not> IsComplete jobStatus"
    and "Client_JobStatus L c url (poll it) = (st, Some err)"
    and "errors_Is err ErrorUnauthorized"
  shows "\<exists>c' tok aerr final steps.
           Client_Authenticate L c (auth it) = (c', tok, aerr) \<and>
           monitor_loop L url c' JobStatus_zero its = (final, steps) \<and>
           monitor_loop L url c jobStatus (it # its) =
             (final,
              [CallJobStatus, CallAuthenticate] @
              (case aerr of None \<Rightarrow> [] | Some e \<Rightarrow> [Send \<lparr>Status = JobStatus_zero, Error = Some e\<rparr>]) @
              steps) \<and>
           (if its = [] then steps = [] else hd steps = CallJobStatus \<and> steps \<noteq> [])"
proof -
  from JobStatus_Unauthorized [OF assms(2,3)] have st: "st = JobStatus_zero" by simp
  obtain c' tok aerr where a: "Client_Authenticate L c (auth it) = (c', tok, aerr)"
    by (cases "Client_Authenticate L c (auth it)") auto
  obtain final steps where l: "monitor_loop L url c' JobStatus_zero its = (final, steps)"
    by (cases "monitor_loop L url c' JobStatus_zero its") auto
  have nz: "\<not> IsComplete JobStatus_zero" by (simp add: JobStatus_zero_def)
  have "monitor_loop L url c jobStatus (it # its) =
             (final,
              [CallJobStatus, CallAuthenticate] @
              (case aerr of None \<Rightarrow> [] | Some e \<Rightarrow> [Send \<lparr>Status = JobStatus_zero, Error = Some e\<rparr>]) @
              steps)"
    using assms a l st by (cases aerr) simp_all
  moreover have "if its = [] then steps = [] else hd steps = CallJobStatus \<and> steps \<noteq> []"
  proof (cases its)
    case Nil
    with l show ?thesis by simp
  next
    case (Cons i more)
    with l monitor_loop_first_step [OF nz, of L url c' i more final steps] show ?thesis by simp
  qed
  ultimately show ?thesis using a l by blast
qed


theorem monitor_reauthenticates_without_sleep_witness:
  "\<not> IsComplete JobStatus_zero \<and>
   Client_JobStatus demoLibs demoClient ''https://example.org/job/1''
     (DoResponse (demoResponse 401 [] [])) = (JobStatus_zero, Some ErrorUnauthorized) \<and>
   errors_Is ErrorUnauthorized ErrorUnauthorized \<and>
   Client_MonitorJobStatus demoLibs demoClient ''https://example.org/job/1''
     [\<lparr>poll = DoResponse (demoResponse 401 [] []),
       auth = DoResponse (demoResponse 200 [] ''token2'')\<rparr>,
      \<lparr>poll = DoResponse (demoResponse 200 []
         ''{transactionTime: 2021-01-01T00:00:00Z, output: [Patient u1, Patient u2]}''),
       auth = DoError ''unused''\<rparr>] =
     [CallJobStatus, CallAuthenticate, CallJobStatus,
      Send \<lparr>Status = \<lparr>IsComplete = True, PercentComplete = 0,
                       ResultURLs = [Patient \<mapsto> [''u1'', ''u2'']],
                       TransactionTime = 1609459200\<rparr>,
            Error = None\<rparr>,
      Close]"
  using monitor_reauthenticates_without_sleep
    [of JobStatus_zero demoLibs demoClient "''https://example.org/job/1''"
        "\<lparr>poll = DoResponse (demoResponse 401 [] []),
          auth = DoResponse (demoResponse 200 [] ''token2'')\<rparr>"
        JobStatus_zero ErrorUnauthorized
        "[\<lparr>poll = DoResponse (demoResponse 200 []
            ''{transactionTime: 2021-01-01T00:00:00Z, output: [Patient u1, Patient u2]}''),
           auth = DoError ''unused''\<rparr>]"]
  by (simp add: Client_MonitorJobStatus_def Client_JobStatus_def Client_Authenticate_def
      JobStatus_OK_def demoClient_def demoLibs_def demoResponse_def demoJobStatusResponse_def
      JobStatus_zero_def ResourceTypeFromAPI_def Patient_def fun_eq_iff)

subsection \<open>The events of the monitor\<close>

lemma sent_append [simp]: "sent (xs @ ys) = sent xs @ sent ys"
  by (induction xs rule: sent.induct) auto

lemma terminal_error [simp]:
  "terminal \<lparr>Status = s, Error = Some e\<rparr> = (e = ErrorTimeout)"
  by (simp add: terminal_def)

lemma terminal_status [simp]:
  "terminal \<lparr>Status = s, Error = None\<rparr> = IsComplete s"
  by (simp add: terminal_def)

lemma monitor_loop_events:
  "monitor_loop L url c jobStatus its = (st, steps) \<Longrightarrow> \<not> IsComplete jobStatus \<Longrightarrow>
   Close \<notin> set steps \<and>
   (filter terminal (sent steps) = [] \<or>
    IsComplete st \<and> sent steps \<noteq> [] \<and> filter terminal (sent steps) = [last (sent steps)])"
proof (induction its arbitrary: c jobStatus st steps)
  case Nil
  then show ?case by simp
next
  case (Cons it its)
  obtain js' e where js: "Client_JobStatus L c url (poll it) = (js', e)"
    by (cases "Client_JobStatus L c url (poll it)") auto
  show ?case
  proof (cases e)
    case None
    obtain st' steps' where l: "monitor_loop L url c js' its = (st', steps')"
      by (cases "monitor_loop L url c js' its") auto
    show ?thesis
    proof (cases "IsComplete js'")
      case True
      with Cons.prems js None show ?thesis by auto
    next
      case False
      from Cons.IH [OF l False] Cons.prems js None l False show ?thesis by auto
    qed
  next
    case (Some err)
    have nt: "err \<noteq> ErrorTimeout" using js Some JobStatus_never_Timeout by blast
    show ?thesis
    proof (cases "errors_Is err ErrorUnauthorized")
      case True
      with js Some JobStatus_Unauthorized have z: "js' = JobStatus_zero" by blast
      then have nc: "\<not> IsComplete js'" by (simp add: JobStatus_zero_def)
      obtain c' tok aerr where a: "Client_Authenticate L c (auth it) = (c', tok, aerr)"
        by (cases "Client_Authenticate L c (auth it)") auto
      obtain st' steps' where l: "monitor_loop L url c' js' its = (st', steps')"
        by (cases "monitor_loop L url c' js' its") auto
      have "aerr \<noteq> Some ErrorTimeout" using a Authenticate_error_Foreign by fastforce
      with Cons.IH [OF l nc] Cons.prems js Some True a l show ?thesis
        by (cases aerr) auto
    next
      case False
      obtain st' steps' where l: "monitor_loop L url c js' its = (st', steps')"
        by (cases "monitor_loop L url c js' its") auto
      show ?thesis
      proof (cases "IsComplete js'")
        case True
        with Cons.prems js Some False nt show ?thesis by auto
      next
        case nc: False
        from Cons.IH [OF l nc] Cons.prems js Some False nt l nc show ?thesis by auto
      qed
    qed
  qed
qed

lemma MonitorJobStatus_closes_once:
  "\<exists>steps. Client_MonitorJobStatus L c url its = steps @ [Close] \<and> Close \<notin> set steps"
proof -
  obtain st steps where l: "monitor_loop L url c JobStatus_zero its = (st, steps)"
    by (cases "monitor_loop L url c JobStatus_zero its") auto
  have "\<not> IsComplete JobStatus_zero" by (simp add: JobStatus_zero_def)
  from monitor_loop_events [OF l this] l show ?thesis
    by (auto simp: Client_MonitorJobStatus_def)
qed

lemma MonitorJobStatus_at_most_one_terminal:
  "length (filter terminal (sent (Client_MonitorJobStatus L c url its))) \<le> 1"
proof -
  obtain st steps where l: "monitor_loop L url c JobStatus_zero its = (st, steps)"
    by (cases "monitor_loop L url c JobStatus_zero its") auto
  have "\<not> IsComplete JobStatus_zero" by (simp add: JobStatus_zero_def)
  from monitor_loop_events [OF l this] l show ?thesis
    by (auto simp: Client_MonitorJobStatus_def)
qed

text \<open>
  C2 at a concrete run. The first poll gets status 200 with a body that does not decode.
  The monitor sends the decoder's error and closes the channel: no event of the stream is
  a complete status or the timeout error.
\<close>

theorem MonitorJobStatus_undecodable_body_no_terminal_event:
  "Client_MonitorJobStatus demoLibs demoClient ''https://example.org/job/1''
     [\<lparr>poll = DoResponse (demoResponse 200 [] ''<html>''), auth = DoError ''unused''\<rparr>] =
     [CallJobStatus,
      Send \<lparr>Status = JobStatus_zero, Error = Some (Foreign ''invalid character'')\<rparr>,
      Close] \<and>
   filter terminal (sent (Client_MonitorJobStatus demoLibs demoClient ''https://example.org/job/1''
     [\<lparr>poll = DoResponse (demoResponse 200 [] ''<html>''), auth = DoError ''unused''\<rparr>])) = []"
  by (simp add: Client_MonitorJobStatus_def Client_JobStatus_def JobStatus_OK_def
      demoLibs_def demoClient_def demoResponse_def JobStatus_zero_def terminal_def)

text \<open>
  When no poll returns a complete status together with an error, the stream has exactly
  one terminal event, and it is the last event sent.
\<close>

lemma monitor_loop_completion_sent:
  "error_free_completion L url its \<Longrightarrow>
   monitor_loop L url c jobStatus its = (st, steps) \<Longrightarrow> \<not> IsComplete jobStatus \<Longrightarrow>
   IsComplete st \<Longrightarrow>
   sent steps \<noteq> [] \<and> filter terminal (sent steps) = [last (sent steps)]"
proof (induction its arbitrary: c jobStatus st steps)
  case Nil
  then show ?case by simp
next
  case (Cons it its)
  have efc: "error_free_completion L url its"
    using Cons.prems(1) by (simp add: error_free_completion_def)
  obtain js' e where js: "Client_JobStatus L c url (poll it) = (js', e)"
    by (cases "Client_JobStatus L c url (poll it)") auto
  have good: "e = None" if "IsComplete js'"
  proof -
    from Cons.prems(1) have "IsComplete (fst (Client_JobStatus L c url (poll it))) \<longrightarrow>
        snd (Client_JobStatus L c url (poll it)) = None"
      unfolding error_free_completion_def by simp
    with js that show ?thesis by simp
  qed
  show ?case
  proof (cases e)
    case None
    obtain st' steps' where l: "monitor_loop L url c js' its = (st', steps')"
      by (cases "monitor_loop L url c js' its") auto
    show ?thesis
    proof (cases "IsComplete js'")
      case True
      with Cons.prems js None show ?thesis by auto
    next
      case False
      from Cons.IH [OF efc l False] Cons.prems js None l False show ?thesis by auto
    qed
  next
    case (Some err)
    with good have nc: "\<not> IsComplete js'" by auto
    have nt: "err \<noteq> ErrorTimeout" using js Some JobStatus_never_Timeout by blast
    show ?thesis
    proof (cases "errors_Is err ErrorUnauthorized")
      case True
      obtain c' tok aerr where a: "Client_Authenticate L c (auth it) = (c', tok, aerr)"
        by (cases "Client_Authenticate L c (auth it)") auto
      obtain st' steps' where l: "monitor_loop L url c' js' its = (st', steps')"
        by (cases "monitor_loop L url c' js' its") auto
      have "aerr \<noteq> Some ErrorTimeout" using a Authenticate_error_Foreign by fastforce
      with Cons.IH [OF efc l nc] Cons.prems js Some True a l show ?thesis
        by (cases aerr) auto
    next
      case False
      obtain st' steps' where l: "monitor_loop L url c js' its = (st', steps')"
        by (cases "monitor_loop L url c js' its") auto
      from Cons.IH [OF efc l nc] Cons.prems js Some False nt l nc show ?thesis by auto
    qed
  qed
qed

lemma MonitorJobStatus_one_terminal_event:
  assumes "error_free_completion L url its"
  shows "sent (Client_MonitorJobStatus L c url its) \<noteq> [] \<and>
         filter terminal (sent (Client_MonitorJobStatus L c url its)) =
           [last (sent (Client_MonitorJobStatus L c url its))]"
proof -
  obtain st steps where l: "monitor_loop L url c JobStatus_zero its = (st, steps)"
    by (cases "monitor_loop L url c JobStatus_zero its") auto
  have nz: "\<not> IsComplete JobStatus_zero" by (simp add: JobStatus_zero_def)
  show ?thesis
  proof (cases "IsComplete st")
    case True
    from monitor_loop_completion_sent [OF assms l nz True] l True show ?thesis
      by (simp add: Client_MonitorJobStatus_def)
  next
    case False
    from monitor_loop_events [OF l nz] l False show ?thesis
      by (auto simp: Client_MonitorJobStatus_def)
  qed
qed

section \<open>The resource wrapper's caches\<close>

text \<open>
  C9. For a wrapper that is not stabilized: with no structured form cached, \<open>Proto\<close>
  parses the cached bytes, failing with the parser's error (and leaving the wrapper as it
  is) on malformed input; on success it stores the structured form and clears the cached
  bytes; with a structured form cached it returns it and clears the cached bytes all the
  same. After a successful \<open>Proto\<close> the bytes cache is empty, so a call of \<open>JSON\<close> that
  follows, whatever the structured form has been changed to in between, serializes that
  structured form. For a stabilized wrapper neither \<open>Proto\<close> nor \<open>JSON\<close> clears a cache or
  resets the flag.
\<close>

theorem resourceWrapper_cache_invalidation:
  "(\<not> doneMutating rw \<longrightarrow>
      (proto rw = None \<longrightarrow>
         (case unmarshaller rw (bytes_of (json rw)) of
            Inl m \<Rightarrow> resourceWrapper_Proto rw = (rw, None, Some (Foreign m))
          | Inr p \<Rightarrow> resourceWrapper_Proto rw = (rw\<lparr>proto := Some p, json := None\<rparr>, Some p, None))) \<and>
      (\<forall>p. proto rw = Some p \<longrightarrow>
         resourceWrapper_Proto rw = (rw\<lparr>json := None\<rparr>, Some p, None)) \<and>
      (\<forall>rw' p. resourceWrapper_Proto rw = (rw', Some p, None) \<longrightarrow>
         json rw' = None \<and> proto rw' = Some p \<and> \<not> doneMutating rw' \<and>
         (\<forall>p'. resourceWrapper_JSON (rw'\<lparr>proto := Some p'\<rparr>) =
            (case marshaller rw (Some p') of
               Inl m \<Rightarrow> (rw'\<lparr>proto := Some p'\<rparr>, None, Some (Foreign m))
             | Inr bs \<Rightarrow> (rw'\<lparr>proto := Some p', json := Some bs\<rparr>, Some bs, None))))) \<and>
   (doneMutating rw \<longrightarrow>
      (\<forall>rw' res e. resourceWrapper_Proto rw = (rw', res, e) \<longrightarrow>
         json rw' = json rw \<and> doneMutating rw' \<and> (proto rw \<noteq> None \<longrightarrow> proto rw' = proto rw)) \<and>
      (\<forall>rw' res e. resourceWrapper_JSON rw = (rw', res, e) \<longrightarrow>
         proto rw' = proto rw \<and> doneMutating rw' \<and> (json rw \<noteq> None \<longrightarrow> json rw' = json rw)))"
  by (auto simp: resourceWrapper_Proto_def resourceWrapper_JSON_def Let_def
      split: sum.splits if_splits)

theorem resourceWrapper_cache_invalidation_witness:
  "\<not> doneMutating demoWrapper \<and> proto demoWrapper = None \<and>
   resourceWrapper_Proto demoWrapper =
     (demoWrapper\<lparr>proto := Some 3, json := None\<rparr>, Some 3, None) \<and>
   resourceWrapper_JSON (demoWrapper\<lparr>proto := Some 5, json := None\<rparr>) =
     (demoWrapper\<lparr>proto := Some 5, json := Some ''xxxxx''\<rparr>, Some ''xxxxx'', None) \<and>
   resourceWrapper_Proto (demoWrapper\<lparr>json := Some []\<rparr>) =
     (demoWrapper\<lparr>json := Some []\<rparr>, None, Some (Foreign ''unexpected end of JSON input'')) \<and>
   doneMutating (demoWrapper\<lparr>doneMutating := True\<rparr>) \<and>
   resourceWrapper_Proto (demoWrapper\<lparr>doneMutating := True\<rparr>) =
     (demoWrapper\<lparr>proto := Some 3, doneMutating := True\<rparr>, Some 3, None) \<and>
   resourceWrapper_JSON (demoWrapper\<lparr>proto := Some 3, doneMutating := True\<rparr>) =
     (demoWrapper\<lparr>proto := Some 3, doneMutating := True\<rparr>, Some ''abc'', None)"
proof -
  have nd: "\<not> doneMutating demoWrapper" and pn: "proto demoWrapper = None"
    by (simp_all add: demoWrapper_def)
  have um: "unmarshaller demoWrapper (bytes_of (json demoWrapper)) = Inr 3"
    by (simp add: demoWrapper_def demoUnmarshal_def bytes_of_def)
  from resourceWrapper_cache_invalidation [of demoWrapper] nd pn
  have "case unmarshaller demoWrapper (bytes_of (json demoWrapper)) of
          Inl m \<Rightarrow> resourceWrapper_Proto demoWrapper = (demoWrapper, None, Some (Foreign m))
        | Inr p \<Rightarrow> resourceWrapper_Proto demoWrapper =
                    (demoWrapper\<lparr>proto := Some p, json := None\<rparr>, Some p, None)"
    by blast
  with um have p1: "resourceWrapper_Proto demoWrapper =
     (demoWrapper\<lparr>proto := Some 3, json := None\<rparr>, Some 3, None)"
    by simp
  have j1: "resourceWrapper_JSON (demoWrapper\<lparr>proto := Some 5, json := None\<rparr>) =
     (demoWrapper\<lparr>proto := Some 5, json := Some ''xxxxx''\<rparr>, Some ''xxxxx'', None)"
    by (simp add: resourceWrapper_JSON_def demoWrapper_def demoMarshal_def eval_nat_numeral)
  have p2: "resourceWrapper_Proto (demoWrapper\<lparr>json := Some []\<rparr>) =
     (demoWrapper\<lparr>json := Some []\<rparr>, None, Some (Foreign ''unexpected end of JSON input''))"
    by (simp add: resourceWrapper_Proto_def demoWrapper_def demoUnmarshal_def bytes_of_def)
  have d: "doneMutating (demoWrapper\<lparr>doneMutating := True\<rparr>)"
    by simp
  have p3: "resourceWrapper_Proto (demoWrapper\<lparr>doneMutating := True\<rparr>) =
     (demoWrapper\<lparr>proto := Some 3, doneMutating := True\<rparr>, Some 3, None)"
    by (simp add: resourceWrapper_Proto_def demoWrapper_def demoUnmarshal_def bytes_of_def)
  have j2: "resourceWrapper_JSON (demoWrapper\<lparr>proto := Some 3, doneMutating := True\<rparr>) =
     (demoWrapper\<lparr>proto := Some 3, doneMutating := True\<rparr>, Some ''abc'', None)"
    by (simp add: resourceWrapper_JSON_def demoWrapper_def)
  from nd pn p1 j1 p2 d p3 j2 show ?thesis by (intro conjI)
qed

section \<open>The pipeline\<close>

subsection \<open>The wiring of NewPipeline\<close>

lemma wire_wired:
  "wire (length front) (front @ spec_wired (length front) rest ss)
     (spec_chain (length front) rest ss) =
     (spec_wired 0 (front @ rest) ss, spec_chain 0 (front @ rest) ss)"
proof (induction front arbitrary: rest rule: rev_induct)
  case Nil
  then show ?case by simp
next
  case (snoc x xs)
  have "wire (length (xs @ [x])) ((xs @ [x]) @ spec_wired (length (xs @ [x])) rest ss)
          (spec_chain (length (xs @ [x])) rest ss) =
        wire (length xs) (xs @ spec_wired (length xs) (x # rest) ss)
          (spec_chain (length xs) (x # rest) ss)"
    by (simp add: nth_append list_update_append)
  also have "\<dots> = (spec_wired 0 (xs @ x # rest) ss, spec_chain 0 (xs @ x # rest) ss)"
    by (rule snoc.IH)
  finally show ?case by simp
qed

lemma wire_all:
  "wire (length prs) prs (Pipeline_writeToSinks ss) = (spec_wired 0 prs ss, spec_chain 0 prs ss)"
  using wire_wired [of prs "[]" ss] by simp

lemma NewPipeline_Inr:
  "NewPipeline nu nm prs ss = Inr p \<Longrightarrow>
   pipelineFunc p = spec_chain 0 prs ss \<and> processors p = spec_wired 0 prs ss \<and> sinks p = ss"
  by (auto simp: NewPipeline_def wire_all split: sum.splits)

subsection \<open>The calls of the sink-writing stage\<close>

lemma write_sinks_calls:
  "write_sinks ss i r (st, tr) = (e, (st', tr')) \<Longrightarrow>
   \<exists>k\<le>length ss. tr' = tr @ map (\<lambda>j. SinkWrite j r) [i..<i + k] \<and>
     (e = None \<longrightarrow> k = length ss) \<and>
     (e \<noteq> None \<longrightarrow> 0 < k \<and> (\<exists>s0. Write (ss ! (k - 1)) r s0 = (e, st')))"
proof (induction ss arbitrary: i st tr)
  case Nil
  then show ?case by simp
next
  case (Cons s ss)
  obtain e1 st1 where w: "Write s r st = (e1, st1)" by (cases "Write s r st") auto
  show ?case
  proof (cases e1)
    case None
    with Cons.prems w
    have "write_sinks ss (Suc i) r (st1, tr @ [SinkWrite i r]) = (e, (st', tr'))" by simp
    from Cons.IH [OF this] obtain k where k: "k \<le> length ss"
      "tr' = (tr @ [SinkWrite i r]) @ map (\<lambda>j. SinkWrite j r) [Suc i..<Suc i + k]"
      "e = None \<longrightarrow> k = length ss"
      "e \<noteq> None \<longrightarrow> 0 < k \<and> (\<exists>s0. Write (ss ! (k - 1)) r s0 = (e, st'))" by blast
    have "[i..<i + Suc k] = i # [Suc i..<Suc i + k]" by (simp add: upt_rec)
    then have "tr' = tr @ map (\<lambda>j. SinkWrite j r) [i..<i + Suc k]" using k(2) by simp
    moreover have "e \<noteq> None \<longrightarrow> (\<exists>s0. Write ((s # ss) ! (Suc k - 1)) r s0 = (e, st'))"
      using k(4) by (cases k) auto
    ultimately show ?thesis using k(1,3)
      by (intro exI [of _ "Suc k"]) simp
  next
    case (Some err)
    with Cons.prems w have "e = Some err" "st' = st1" "tr' = tr @ [SinkWrite i r]" by auto
    then show ?thesis using w Some
      by (intro exI [of _ "Suc 0"]) auto
  qed
qed




subsection \<open>Calls made in order up to the first error\<close>

lemma world_before_Cons:
  "world_before (f # fs) w (Suc j) = world_before fs (snd (f w)) j"
  by (induction j) auto

lemma until_error_calls:
  "until_error fs w = (e, w') \<Longrightarrow>
   \<exists>k\<le>length fs. w' = world_before fs w k \<and>
     (\<forall>j<k. fst ((fs ! j) (world_before fs w j)) = (if Suc j = k then e else None)) \<and>
     (e = None \<longrightarrow> k = length fs) \<and> (e \<noteq> None \<longrightarrow> 0 < k)"
proof (induction fs arbitrary: w)
  case Nil
  then show ?case by simp
next
  case (Cons f fs)
  obtain e1 w1 where f: "f w = (e1, w1)" by (cases "f w") auto
  show ?case
  proof (cases e1)
    case None
    with Cons.prems f have "until_error fs w1 = (e, w')" by simp
    from Cons.IH [OF this] obtain k where k: "k \<le> length fs" "w' = world_before fs w1 k"
      "\<forall>j<k. fst ((fs ! j) (world_before fs w1 j)) = (if Suc j = k then e else None)"
      "e = None \<longrightarrow> k = length fs" "e \<noteq> None \<longrightarrow> 0 < k" by blast
    have "fst (((f # fs) ! j) (world_before (f # fs) w j)) = (if Suc j = Suc k then e else None)"
      if "j < Suc k" for j
    proof (cases j)
      case 0
      then show ?thesis using f None k(4,5) by (cases e) auto
    next
      case (Suc i)
      with that have "i < k" by simp
      moreover have "world_before (f # fs) w (Suc i) = world_before fs w1 i"
        using f by (simp add: world_before_Cons del: world_before.simps)
      ultimately show ?thesis using k(3) Suc by (simp del: world_before.simps)
    qed
    moreover have "w' = world_before (f # fs) w (Suc k)"
      using k(2) f by (simp add: world_before_Cons del: world_before.simps)
    ultimately show ?thesis using k(1,4)
      by (intro exI [of _ "Suc k"]) simp
  next
    case (Some err)
    with Cons.prems f have "e = Some err" "w' = w1" by auto
    then show ?thesis using f Some
      by (intro exI [of _ "Suc 0"]) auto
  qed
qed

lemma until_error_append:
  "until_error (fs @ gs) w =
     (case until_error fs w of (Some err, w') \<Rightarrow> (Some err, w') | (None, w') \<Rightarrow> until_error gs w')"
  by (induction fs arbitrary: w) (auto split: prod.splits option.splits)


lemma finalize_processors_until:
  "finalize_processors prs i w =
     until_error (map (\<lambda>(j, pr). call_ProcessorFinalize j pr) (enumerate i prs)) w"
proof (induction prs arbitrary: i w)
  case Nil
  then show ?case by simp
next
  case (Cons pr prs)
  obtain st tr where w: "w = (st, tr)" by (cases w) auto
  show ?case using Cons.IH
    by (simp add: w call_ProcessorFinalize_def split: prod.splits option.splits)
qed

lemma finalize_sinks_until:
  "finalize_sinks ss i w =
     until_error (map (\<lambda>(j, s). call_SinkFinalize j s) (enumerate i ss)) w"
proof (induction ss arbitrary: i w)
  case Nil
  then show ?case by simp
next
  case (Cons s ss)
  obtain st tr where w: "w = (st, tr)" by (cases w) auto
  show ?case using Cons.IH
    by (simp add: w call_SinkFinalize_def split: prod.splits option.splits)
qed

lemma Pipeline_Finalize_until:
  "Pipeline_Finalize p w = until_error (finalizers p) w"
  by (auto simp: Pipeline_Finalize_def finalizers_def until_error_append
      finalize_processors_until finalize_sinks_until split: prod.splits option.splits)





subsection \<open>Output functions make no call of Finalize\<close>

lemma finalize_calls_append [simp]:
  "finalize_calls (xs @ ys) = finalize_calls xs @ finalize_calls ys"
  by (simp add: finalize_calls_def)

lemma exec_quiet:
  "quiet out \<Longrightarrow> exec rn out tr = (e, (st', tr')) \<Longrightarrow>
   \<exists>ext. tr' = tr @ ext \<and> finalize_calls ext = []"
proof (induction rn arbitrary: tr)
  case (Return e0 s0)
  then show ?case by (simp add: finalize_calls_def)
next
  case (CallOutput r s0 k)
  obtain e1 s1 t1 where o: "out r (s0, tr) = (e1, (s1, t1))"
    by (cases "out r (s0, tr)") auto
  with CallOutput.prems(1) obtain ext1 where e1: "t1 = tr @ ext1" "finalize_calls ext1 = []"
    unfolding quiet_def by blast
  from CallOutput.prems(2) o have "exec (k e1 s1) out t1 = (e, (st', tr'))" by simp
  with CallOutput.IH [of "k e1" "k e1 s1" t1] CallOutput.prems(1)
  obtain ext2 where "tr' = t1 @ ext2" "finalize_calls ext2 = []" by auto
  with e1 show ?case by (intro exI [of _ "ext1 @ ext2"]) simp
qed

lemma quiet_writeToSinks: "quiet (Pipeline_writeToSinks ss)"
proof -
  have "\<exists>ext. tr' = tr @ ext \<and> finalize_calls ext = []"
    if "Pipeline_writeToSinks ss r (st, tr) = (e, (st', tr'))" for r st tr e st' tr'
  proof -
    from that have "write_sinks ss 0 r (markDone r st, tr) = (e, (st', tr'))"
      by (simp add: Pipeline_writeToSinks_def)
    from write_sinks_calls [OF this] obtain k where
      "tr' = tr @ map (\<lambda>j. SinkWrite j r) [0..<0 + k]" by blast
    moreover have "finalize_calls (map (\<lambda>j. SinkWrite j r) xs) = []" for xs
      by (induction xs) (auto simp: finalize_calls_def)
    ultimately show ?thesis by blast
  qed
  then show ?thesis unfolding quiet_def by blast
qed

lemma quiet_call_Process:
  assumes "quiet out"
  shows "quiet (call_Process i (SetOutput out pr))"
proof -
  have "\<exists>ext. tr' = tr @ ext \<and> finalize_calls ext = []"
    if "call_Process i (SetOutput out pr) r (st, tr) = (e, (st', tr'))" for r st tr e st' tr'
  proof -
    from that have "exec (Process pr r st) out (tr @ [ProcessorProcess i r]) = (e, (st', tr'))"
      by (simp add: call_Process_def SetOutput_def)
    from exec_quiet [OF assms this] obtain ext where
      "tr' = (tr @ [ProcessorProcess i r]) @ ext" "finalize_calls ext = []" by blast
    then show ?thesis
      by (intro exI [of _ "ProcessorProcess i r # ext"]) (simp add: finalize_calls_def)
  qed
  then show ?thesis unfolding quiet_def by blast
qed

lemma quiet_chain: "quiet (spec_chain i prs ss)"
  by (induction prs arbitrary: i) (simp_all add: quiet_writeToSinks quiet_call_Process)

lemma length_wired [simp]: "length (spec_wired i prs ss) = length prs"
  by (induction prs arbitrary: i) auto

lemma wired_quiet: "pr \<in> set (spec_wired i prs ss) \<Longrightarrow> quiet (Output pr)"
  by (induction prs arbitrary: i) (auto simp: SetOutput_def quiet_chain)

lemma call_ProcessorFinalize_calls:
  assumes "quiet (Output pr)"
  shows "finalize_calls (snd (snd (call_ProcessorFinalize i pr (st, tr)))) =
         finalize_calls tr @ [ProcessorFinalize i]"
proof -
  obtain e st' tr' where
    x: "exec (Processor.Finalize pr st) (Output pr) (tr @ [ProcessorFinalize i]) = (e, (st', tr'))"
    by (cases "exec (Processor.Finalize pr st) (Output pr) (tr @ [ProcessorFinalize i])") auto
  from exec_quiet [OF assms x] obtain ext where
    "tr' = (tr @ [ProcessorFinalize i]) @ ext" "finalize_calls ext = []" by blast
  with x show ?thesis by (simp add: call_ProcessorFinalize_def) (simp add: finalize_calls_def)
qed

lemma call_SinkFinalize_calls:
  "finalize_calls (snd (snd (call_SinkFinalize i s (st, tr)))) =
   finalize_calls tr @ [SinkFinalize i]"
  by (simp add: call_SinkFinalize_def split: prod.splits) (simp add: finalize_calls_def)

lemma finalizers_nth:
  "j < length (processors p) \<Longrightarrow>
     finalizers p ! j = call_ProcessorFinalize j (processors p ! j)"
  "length (processors p) \<le> j \<Longrightarrow> j < length (processors p) + length (sinks p) \<Longrightarrow>
     finalizers p ! j =
       call_SinkFinalize (j - length (processors p)) (sinks p ! (j - length (processors p)))"
  by (simp_all add: finalizers_def nth_append nth_enumerate_eq)

lemma finalizers_trace:
  assumes "\<forall>pr\<in>set (processors p). quiet (Output pr)"
    and "k \<le> length (processors p) + length (sinks p)"
  shows "finalize_calls (snd (world_before (finalizers p) (st, tr) k)) =
         finalize_calls tr @
         take k (map ProcessorFinalize [0..<length (processors p)] @
                 map SinkFinalize [0..<length (sinks p)])"
  using assms(2)
proof (induction k)
  case 0
  then show ?case by simp
next
  case (Suc k)
  let ?order = "map ProcessorFinalize [0..<length (processors p)] @
                map SinkFinalize [0..<length (sinks p)]"
  from Suc have k: "k < length (processors p) + length (sinks p)" and
    IH: "finalize_calls (snd (world_before (finalizers p) (st, tr) k)) =
         finalize_calls tr @ take k ?order" by simp_all
  obtain s1 t1 where w: "world_before (finalizers p) (st, tr) k = (s1, t1)"
    by (cases "world_before (finalizers p) (st, tr) k") auto
  have len: "k < length ?order" using k by simp
  have step: "take (Suc k) ?order = take k ?order @ [?order ! k]"
    using len by (rule take_Suc_conv_app_nth)
  show ?case
  proof (cases "k < length (processors p)")
    case True
    then have "processors p ! k \<in> set (processors p)" by simp
    with assms(1) have q: "quiet (Output (processors p ! k))" by blast
    have "?order ! k = ProcessorFinalize k" using True by (simp add: nth_append)
    with step IH w True call_ProcessorFinalize_calls [OF q, of k s1 t1]
    show ?thesis by (simp add: finalizers_nth)
  next
    case False
    then have "?order ! k = SinkFinalize (k - length (processors p))"
      using k by (simp add: nth_append)
    with step IH w False k
      call_SinkFinalize_calls [of "k - length (processors p)" "sinks p ! (k - length (processors p))" s1 t1]
    show ?thesis by (simp add: finalizers_nth)
  qed
qed


subsection \<open>Process and Finalize of a pipeline\<close>

lemma length_sink_writers [simp]: "length (sink_writers ss r) = length ss"
  by (simp add: sink_writers_def)

lemma length_finalizers [simp]:
  "length (finalizers p) = length (processors p) + length (sinks p)"
  by (simp add: finalizers_def)





text \<open>
  C8. \<open>Finalize\<close> of a pipeline built by \<open>NewPipeline\<close> makes the first \<open>k\<close> of its finalize
  calls, which are those of the processors in list order followed by those of the sinks
  in list order: each call but the last returns nil, \<open>Finalize\<close> returns what the last
  returns, and \<open>k\<close> is the number of all processors and sinks when no call fails. The
  calls of \<open>Finalize\<close> in the list of calls are exactly these \<open>k\<close>: after a failure no later
  finalizer runs, and a failing processor finalizer leaves every sink finalizer out.
\<close>

theorem Pipeline_Finalize_order:
  assumes "NewPipeline nu nm prs ss = Inr p" and "Pipeline_Finalize p (st, tr) = (e, w')"
  shows "\<exists>k\<le>length prs + length ss.
           w' = world_before (finalizers p) (st, tr) k \<and>
           (\<forall>j<k. fst ((finalizers p ! j) (world_before (finalizers p) (st, tr) j)) =
                   (if Suc j = k then e else None)) \<and>
           (e = None \<longrightarrow> k = length prs + length ss) \<and> (e \<noteq> None \<longrightarrow> 0 < k) \<and>
           finalize_calls (snd w') =
             finalize_calls tr @
             take k (map ProcessorFinalize [0..<length prs] @ map SinkFinalize [0..<length ss]) \<and>
           (k \<le> length prs \<longrightarrow>
              finalize_calls (snd w') = finalize_calls tr @ map ProcessorFinalize [0..<k])"
proof -
  from NewPipeline_Inr [OF assms(1)]
  have p: "processors p = spec_wired 0 prs ss" "sinks p = ss" by simp_all
  then have len: "length (processors p) = length prs" "length (sinks p) = length ss" by simp_all
  have q: "\<forall>pr\<in>set (processors p). quiet (Output pr)"
    unfolding p(1) by (intro ballI) (rule wired_quiet)
  from assms(2) have "until_error (finalizers p) (st, tr) = (e, w')"
    by (simp add: Pipeline_Finalize_until)
  from until_error_calls [OF this] obtain k where k: "k \<le> length prs + length ss"
    "w' = world_before (finalizers p) (st, tr) k"
    "\<forall>j<k. fst ((finalizers p ! j) (world_before (finalizers p) (st, tr) j)) =
                   (if Suc j = k then e else None)"
    "e = None \<longrightarrow> k = length prs + length ss" "e \<noteq> None \<longrightarrow> 0 < k"
    using len by auto
  from finalizers_trace [OF q, of k st tr] k(1,2) len
  have t: "finalize_calls (snd w') =
             finalize_calls tr @
             take k (map ProcessorFinalize [0..<length prs] @ map SinkFinalize [0..<length ss])"
    by simp
  have "take k (map ProcessorFinalize [0..<length prs] @ map SinkFinalize [0..<length ss]) =
        map ProcessorFinalize [0..<k]" if "k \<le> length prs"
    using that by (simp add: take_map)
  with t have "k \<le> length prs \<longrightarrow>
      finalize_calls (snd w') = finalize_calls tr @ map ProcessorFinalize [0..<k]"
    by simp
  with k t show ?thesis by blast
qed


subsection \<open>Concrete pipelines\<close>

lemmas demo_defs = demoPipeline_def NewPipeline_def demoForwarder_def demoBatcher_def
  BaseProcessor_Finalize_def
  demoFailingProcessor_def demoSink_def demoFailingSink_def demoState_def
  SetOutput_def call_Process_def Pipeline_writeToSinks_def markDone_def
  Pipeline_Process_def Pipeline_Finalize_def


theorem Pipeline_Finalize_order_witness:
  "NewPipeline (Inr demoUnmarshal) (Inr demoMarshal)
     [demoForwarder, demoFailingProcessor, demoForwarder] [demoSink] =
     Inr (demoPipeline [demoForwarder, demoFailingProcessor, demoForwarder] [demoSink]) \<and>
   Pipeline_Finalize (demoPipeline [demoForwarder, demoFailingProcessor, demoForwarder] [demoSink])
     (demoState, []) =
     (Some (New ''flush failed''), (demoState, [ProcessorFinalize 0, ProcessorFinalize 1])) \<and>
   (\<exists>k\<le>length [demoForwarder, demoFailingProcessor, demoForwarder] + length [demoSink].
      finalize_calls (snd (demoState, [ProcessorFinalize 0, ProcessorFinalize 1])) =
        finalize_calls [] @
        take k (map ProcessorFinalize
                  [0..<length [demoForwarder, demoFailingProcessor, demoForwarder]] @
                map SinkFinalize [0..<length [demoSink]])) \<and>
   fst (Pipeline_Finalize (demoPipeline [demoForwarder] [demoSink, demoFailingSink, demoSink])
          (demoState, [])) = Some (New ''close failed'') \<and>
   snd (snd (Pipeline_Finalize
               (demoPipeline [demoForwarder] [demoSink, demoFailingSink, demoSink])
               (demoState, []))) =
     [ProcessorFinalize 0, SinkFinalize 0, SinkFinalize 1] \<and>
   fst (Pipeline_Finalize (demoPipeline [demoBatcher] [demoSink])
          (demoState\<lparr>user := [Wrapper 4, Wrapper 5]\<rparr>, [])) = None \<and>
   snd (snd (Pipeline_Finalize (demoPipeline [demoBatcher] [demoSink])
               (demoState\<lparr>user := [Wrapper 4, Wrapper 5]\<rparr>, []))) =
     [ProcessorFinalize 0, SinkWrite 0 (Wrapper 4), SinkWrite 0 (Wrapper 5), SinkFinalize 0]"
proof -
  have np: "NewPipeline (Inr demoUnmarshal) (Inr demoMarshal)
     [demoForwarder, demoFailingProcessor, demoForwarder] [demoSink] =
     Inr (demoPipeline [demoForwarder, demoFailingProcessor, demoForwarder] [demoSink])"
    by (simp add: demoPipeline_def NewPipeline_def split: prod.splits)
  have fin: "Pipeline_Finalize
     (demoPipeline [demoForwarder, demoFailingProcessor, demoForwarder] [demoSink])
     (demoState, []) =
     (Some (New ''flush failed''), (demoState, [ProcessorFinalize 0, ProcessorFinalize 1]))"
    by (simp add: demo_defs)
  from Pipeline_Finalize_order [OF np fin]
  have "\<exists>k\<le>length [demoForwarder, demoFailingProcessor, demoForwarder] + length [demoSink].
      finalize_calls (snd (demoState, [ProcessorFinalize 0, ProcessorFinalize 1])) =
        finalize_calls [] @
        take k (map ProcessorFinalize
                  [0..<length [demoForwarder, demoFailingProcessor, demoForwarder]] @
                map SinkFinalize [0..<length [demoSink]])"
    by blast
  moreover have
    "fst (Pipeline_Finalize (demoPipeline [demoForwarder] [demoSink, demoFailingSink, demoSink])
          (demoState, [])) = Some (New ''close failed'')"
    "snd (snd (Pipeline_Finalize
               (demoPipeline [demoForwarder] [demoSink, demoFailingSink, demoSink])
               (demoState, []))) =
     [ProcessorFinalize 0, SinkFinalize 0, SinkFinalize 1]"
    "fst (Pipeline_Finalize (demoPipeline [demoBatcher] [demoSink])
          (demoState\<lparr>user := [Wrapper 4, Wrapper 5]\<rparr>, [])) = None"
    "snd (snd (Pipeline_Finalize (demoPipeline [demoBatcher] [demoSink])
               (demoState\<lparr>user := [Wrapper 4, Wrapper 5]\<rparr>, []))) =
     [ProcessorFinalize 0, SinkWrite 0 (Wrapper 4), SinkWrite 0 (Wrapper 5), SinkFinalize 0]"
    by (simp_all add: demo_defs)
  ultimately show ?thesis using np fin by blast
qed

end
